theory Spec2Isabelle
  imports Complex_Main "HOL-Library.List_Lexorder"
begin

section \<open>Python values\<close>

text \<open>
  A Python \<open>str\<close> is a sequence of Unicode code points, so it is modelled as a list of
  code points (\<open>nat\<close>): the source handles U+FEFF, U+20AC and case mappings that no
  8-bit character type can hold. \<open>str\<close> turns an ASCII literal into such a list.
\<close>

type_synonym pystr = "nat list"

definition str :: "string \<Rightarrow> pystr" where
  "str = map of_char"

text \<open>
  \<open>str.isspace\<close> for one code point. The set is the one CPython uses for
  \<open>str.strip()\<close>, \<open>str.isspace()\<close> and the regular expression class \<open>\s\<close>.
\<close>

definition isspace :: "nat \<Rightarrow> bool" where
  "isspace c \<longleftrightarrow>
     (9 \<le> c \<and> c \<le> 13) \<or> (28 \<le> c \<and> c \<le> 32) \<or> c = 133 \<or> c = 160 \<or> c = 5760 \<or>
     (8192 \<le> c \<and> c \<le> 8202) \<or> c = 8232 \<or> c = 8233 \<or> c = 8239 \<or> c = 8287 \<or> c = 12288"

definition py_strip :: "pystr \<Rightarrow> pystr" where
  "py_strip s = rev (dropWhile isspace (rev (dropWhile isspace s)))"

text \<open>\<open>s.split(sep)\<close> for a one-character separator: never the empty list.\<close>

fun py_split :: "nat \<Rightarrow> pystr \<Rightarrow> pystr list" where
  "py_split sep [] = [[]]"
| "py_split sep (c # cs) =
     (if c = sep then [] # py_split sep cs
      else (c # hd (py_split sep cs)) # tl (py_split sep cs))"

text \<open>\<open>sep.join(parts)\<close>.\<close>

fun py_join :: "pystr \<Rightarrow> pystr list \<Rightarrow> pystr" where
  "py_join sep [] = []"
| "py_join sep [x] = x"
| "py_join sep (x # y # ys) = x @ sep @ py_join sep (y # ys)"

text \<open>
  \<open>max(items, key=key)\<close> on a non-empty sequence: the running maximum is replaced only
  by a strictly greater key, so the first maximal item wins.
\<close>

fun py_max_from :: "('a \<Rightarrow> nat) \<Rightarrow> 'a \<Rightarrow> 'a list \<Rightarrow> 'a" where
  "py_max_from key best [] = best"
| "py_max_from key best (x # xs) = py_max_from key (if key best < key x then x else best) xs"

definition py_max :: "('a \<Rightarrow> nat) \<Rightarrow> 'a list \<Rightarrow> 'a" where
  "py_max key xs = py_max_from key (hd xs) (tl xs)"

text \<open>
  The lines a text-mode file object yields, without their terminators (the text is
  already newline-translated, so the only terminator is U+000A). A final newline does
  not start another line.
\<close>

definition file_lines :: "pystr \<Rightarrow> pystr list" where
  "file_lines text = (let ls = py_split 10 text in if last ls = [] then butlast ls else ls)"

datatype error =
    UnreadableFileError
  | ValueError
  | OSError
  | CsvError
  | ParserError
  | EmptyDataError
  | UnicodeDecodeError
  | UnicodeEncodeError

section \<open>Tables\<close>

text \<open>
  A pandas \<open>DataFrame\<close>: the length of its index and its columns in order, each a
  label with a typed series. A missing cell is \<open>None\<close>. A numeric series holds
  numbers (modelled as exact rationals), an object series holds strings.
  A label is \<open>None\<close> when \<open>pd.isna\<close> holds of it.
\<close>

type_synonym label = "pystr option"

datatype series = NumCol "rat option list" | ObjCol "pystr option list"

record dataframe =
  index_len :: nat
  columns :: "(label \<times> series) list"

fun series_len :: "series \<Rightarrow> nat" where
  "series_len (NumCol xs) = length xs"
| "series_len (ObjCol xs) = length xs"

text \<open>\<open>pd.DataFrame()\<close> and \<open>df.empty\<close> (an axis of length 0).\<close>

definition DataFrame_empty :: dataframe where
  "DataFrame_empty = \<lparr>index_len = 0, columns = []\<rparr>"

definition df_empty :: "dataframe \<Rightarrow> bool" where
  "df_empty d \<longleftrightarrow> index_len d = 0 \<or> columns d = []"

definition widest :: "'a list list \<Rightarrow> nat" where
  "widest rows = fold max (map length rows) 0"

text \<open>
  \<open>pd.DataFrame(data, columns=cols)\<close> on a list of rows of strings: the data is as wide
  as its longest row, shorter rows are completed with missing cells, and a width other than
  \<open>len(cols)\<close> raises \<open>ValueError\<close>.
\<close>

definition DataFrame :: "pystr list list \<Rightarrow> pystr list \<Rightarrow> error + dataframe" where
  "DataFrame data cols =
     (if data \<noteq> [] \<and> widest data \<noteq> length cols then Inl ValueError
      else Inr \<lparr>index_len = length data,
                columns = map (\<lambda>j. (Some (cols ! j),
                                     ObjCol (map (\<lambda>r. if j < length r then Some (r ! j) else None) data)))
                              [0..<length cols]\<rparr>)"

text \<open>The rows of a frame whose columns all hold strings, as lists of cells.\<close>

fun series_cell :: "series \<Rightarrow> nat \<Rightarrow> pystr option" where
  "series_cell (ObjCol xs) i = xs ! i"
| "series_cell (NumCol xs) i = None"

definition df_rows :: "dataframe \<Rightarrow> pystr option list list" where
  "df_rows d = map (\<lambda>i. map (\<lambda>(l, s). series_cell s i) (columns d)) [0..<index_len d]"

section \<open>The file and the libraries reading it\<close>

text \<open>
  What the resolver sees of one file. Each field is the outcome of a library call on that
  file: \<open>Inl\<close> when the call raises.
  \<^item> \<open>pd_read_csv enc\<close>: \<open>pd.read_csv(filepath, encoding=enc)\<close>;
  \<^item> \<open>pd_read_csv_skip enc\<close>: the same with \<open>on_bad_lines='skip', engine='python'\<close>;
  \<^item> \<open>read_replace enc\<close>: the text of \<open>open(filepath, 'r', encoding=enc, errors='replace')\<close>;
  \<^item> \<open>read_ignore\<close>: the text of \<open>open(filepath, 'r', encoding='utf-8', errors='ignore')\<close>;
  \<^item> \<open>csv_reader d text\<close>: \<open>list(csv.reader(f, delimiter=d))\<close> on a file of that text;
  \<^item> \<open>pd_read_csv_text content\<close>: \<open>pd.read_csv(io.StringIO(content))\<close>.
\<close>

record file_env =
  pd_read_csv :: "string \<Rightarrow> error + dataframe"
  pd_read_csv_skip :: "string \<Rightarrow> error + dataframe"
  read_replace :: "string \<Rightarrow> error + pystr"
  read_ignore :: "error + pystr"
  csv_reader :: "nat \<Rightarrow> pystr \<Rightarrow> error + pystr list list"
  pd_read_csv_text :: "pystr \<Rightarrow> error + dataframe"

section \<open>Delimiter detection\<close>

text \<open>
  \<^verbatim>\<open>delimiters = [',', ';', '\t', '|']
delimiter_counts = {d: lines[0].count(d) for d in delimiters}
delimiter = max(delimiter_counts, key=delimiter_counts.get)\<close>
  A dict iterates in insertion order, so \<open>max\<close> runs over comma, semicolon, tab, pipe.
\<close>

definition delimiters :: "nat list" where
  "delimiters = [44, 59, 9, 124]"

definition delimiter_counts :: "pystr \<Rightarrow> nat \<Rightarrow> nat" where
  "delimiter_counts line d = count_list line d"

definition delimiter :: "pystr \<Rightarrow> nat" where
  "delimiter line = py_max (delimiter_counts line) delimiters"

section \<open>Manual tokenization (app.py, manual_csv_parse)\<close>

text \<open>
  The loop over the encodings. For each one the file is opened with \<open>errors='replace'\<close>,
  its first 50 lines are read and stripped, and if there is a line at all the delimiter is
  taken from the first stripped line, the file is rewound and read whole by \<open>csv.reader\<close>,
  and the loop ends. An exception anywhere moves on to the next encoding with \<open>rows\<close>
  still empty.
\<close>

fun manual_rows :: "file_env \<Rightarrow> string list \<Rightarrow> pystr list list" where
  "manual_rows env [] = []"
| "manual_rows env (encoding # rest) =
     (case read_replace env encoding of
        Inl e \<Rightarrow> manual_rows env rest
      | Inr text \<Rightarrow>
          (let lines = map py_strip (take 50 (file_lines text)) in
           if lines \<noteq> [] then
             (case csv_reader env (delimiter (hd lines)) text of
                Inl e \<Rightarrow> manual_rows env rest
              | Inr rows \<Rightarrow> rows)
           else manual_rows env rest))"

definition manual_encodings :: "string list" where
  "manual_encodings = [''utf-8'', ''latin1'', ''cp1252'', ''iso-8859-1'', ''utf-16'']"

text \<open>
  \<^verbatim>\<open>max_cols = max(len(row) for row in rows)
for i in range(len(rows)):
    if len(rows[i]) < max_cols:
        rows[i].extend([''] * (max_cols - len(rows[i])))\<close>
\<close>

definition pad_rows :: "pystr list list \<Rightarrow> pystr list list" where
  "pad_rows rows = (let max_cols = widest rows in
                    map (\<lambda>row. if length row < max_cols
                               then row @ replicate (max_cols - length row) [] else row) rows)"

text \<open>
  The rows the function ends up with: those of the loop, or, when there are none, every
  line of the file (\<open>errors='ignore'\<close>) stripped and split at commas. That last
  \<open>open\<close> is outside any \<open>try\<close>.
\<close>

definition manual_all_rows :: "file_env \<Rightarrow> error + pystr list list" where
  "manual_all_rows env =
     (let rows = manual_rows env manual_encodings in
      if rows = [] then
        (case read_ignore env of
           Inl e \<Rightarrow> Inl e
         | Inr text \<Rightarrow> Inr (map (\<lambda>line. py_split 44 (py_strip line)) (file_lines text)))
      else Inr rows)"

text \<open>
  The header and the data handed to \<open>pd.DataFrame(rows[1:], columns=rows[0])\<close>, when
  there is more than one row.
\<close>

definition manual_table :: "pystr list list \<Rightarrow> (pystr list \<times> pystr list list) option" where
  "manual_table rows =
     (if length rows > 1 then Some (hd (pad_rows rows), tl (pad_rows rows)) else None)"

definition manual_csv_parse :: "file_env \<Rightarrow> error + dataframe" where
  "manual_csv_parse env =
     (case manual_all_rows env of
        Inl e \<Rightarrow> Inl e
      | Inr rows \<Rightarrow>
          (case manual_table rows of
             Some (cols, data) \<Rightarrow> DataFrame data cols
           | None \<Rightarrow> Inr DataFrame_empty))"

section \<open>Content cleaning (app.py, clean_csv_content)\<close>

text \<open>\<open>s.replace(old, new)\<close>: the occurrences of \<open>old\<close>, left to right, without overlap.\<close>

fun py_replace :: "pystr \<Rightarrow> pystr \<Rightarrow> pystr \<Rightarrow> pystr" where
  "py_replace old new [] = []"
| "py_replace old new (c # cs) =
     (if old \<noteq> [] \<and> take (length old) (c # cs) = old
      then new @ py_replace old new (drop (length old - 1) cs)
      else c # py_replace old new cs)"

text \<open>The table of mis-encoded sequences, in the order the dict is written.\<close>

definition replacements :: "(pystr \<times> pystr) list" where
  "replacements =
     [([194], []),
      ([226, 8364], [45]),
      ([195, 169], [233]),
      ([195], [237]),
      ([195, 179], [243]),
      ([195, 161], [225]),
      ([195, 177], [241]),
      ([195, 186], [250]),
      ([195, 188], [252]),
      ([195, 167], [231]),
      ([160], [32]),
      ([150], [45]),
      ([151], [45])]"

text \<open>
  One data line against the header's comma count:
  \<^verbatim>\<open>line_comma_count = line.count(',')
if line_comma_count < comma_count:
    line += ',' * (comma_count - line_comma_count)
elif line_comma_count > comma_count:
    parts = line.split(',')
    if len(parts) > comma_count + 1:
        line = ','.join(parts[:comma_count]) + ',"' + ','.join(parts[comma_count:]) + '"'\<close>
\<close>

definition reconcile_line :: "nat \<Rightarrow> pystr \<Rightarrow> pystr" where
  "reconcile_line comma_count line =
     (let line_comma_count = count_list line 44 in
      if line_comma_count < comma_count
      then line @ replicate (comma_count - line_comma_count) 44
      else if line_comma_count > comma_count
      then (let parts = py_split 44 line in
            if length parts > comma_count + 1
            then py_join [44] (take comma_count parts) @ [44, 34] @
                 py_join [44] (drop comma_count parts) @ [34]
            else line)
      else line)"

definition clean_csv_content :: "pystr \<Rightarrow> pystr" where
  "clean_csv_content content0 =
     (let content1 = py_replace [13] [10] (py_replace [13, 10] [10] content0);
          content2 = (if content1 \<noteq> [] \<and> hd content1 = 65279 then tl content1 else content1);
          content3 = fold (\<lambda>(old, new) c. py_replace old new c) replacements content2;
          lines = filter (\<lambda>line. py_strip line \<noteq> []) (py_split 10 content3)
      in if lines \<noteq> []
         then (let header = hd lines; comma_count = count_list header 44
               in py_join [10] (header # map (reconcile_line comma_count) (tl lines)))
         else content3)"

section \<open>Python's csv.reader, default dialect\<close>

text \<open>
  The reader's state machine on one record without a line break, for a delimiter \<open>d\<close> and
  the quote character U+0022 (doubled quotes, not strict). \<open>field\<close> is the field being
  collected. An empty line is the empty record.
\<close>

datatype csv_state = START_FIELD | IN_FIELD | IN_QUOTED_FIELD | QUOTE_IN_QUOTED_FIELD

fun csv_parse :: "nat \<Rightarrow> csv_state \<Rightarrow> pystr \<Rightarrow> pystr \<Rightarrow> pystr list" where
  "csv_parse d st field [] = [field]"
| "csv_parse d START_FIELD field (c # cs) =
     (if c = 34 then csv_parse d IN_QUOTED_FIELD field cs
      else if c = d then field # csv_parse d START_FIELD [] cs
      else csv_parse d IN_FIELD (field @ [c]) cs)"
| "csv_parse d IN_FIELD field (c # cs) =
     (if c = d then field # csv_parse d START_FIELD [] cs
      else csv_parse d IN_FIELD (field @ [c]) cs)"
| "csv_parse d IN_QUOTED_FIELD field (c # cs) =
     (if c = 34 then csv_parse d QUOTE_IN_QUOTED_FIELD field cs
      else csv_parse d IN_QUOTED_FIELD (field @ [c]) cs)"
| "csv_parse d QUOTE_IN_QUOTED_FIELD field (c # cs) =
     (if c = 34 then csv_parse d IN_QUOTED_FIELD (field @ [34]) cs
      else if c = d then field # csv_parse d START_FIELD [] cs
      else csv_parse d IN_FIELD (field @ [c]) cs)"

definition csv_record :: "nat \<Rightarrow> pystr \<Rightarrow> pystr list" where
  "csv_record d line = (if line = [] then [] else csv_parse d START_FIELD [] line)"

text \<open>The reader on a whole text in which no quoted field runs over a line break.\<close>

definition csv_reader_lines :: "nat \<Rightarrow> pystr \<Rightarrow> error + pystr list list" where
  "csv_reader_lines d text = Inr (map (csv_record d) (file_lines text))"

section \<open>The console\<close>

text \<open>
  The resolver reports its progress with \<open>print\<close>, and a \<open>print\<close> can raise: several
  messages hold the marks U+2713 and U+2717, which a stream with an ASCII, Latin-1 or CP1252
  encoding cannot encode (\<open>UnicodeEncodeError\<close>), and others interpolate a path or the text
  of an exception. A message is one \<open>print\<close> statement of \<open>read_csv_with_fallbacks\<close> or
  \<open>text_based_csv_parse\<close> with the values it interpolates; a console says of each message
  whether writing it raises (\<open>Some e\<close>) or not (\<open>None\<close>).
  \<^item> \<open>Reading_CSV\<close>: \<^verbatim>\<open>print(f"\nReading CSV: {filepath}")\<close>; \<open>Rule\<close>: \<^verbatim>\<open>print("-" * 50)\<close>;
  \<^item> \<open>Trying_pandas\<close>, \<open>Success_with\<close> (U+2713), \<open>Failed_with\<close> (U+2717): the three of the
    first loop;
  \<^item> \<open>Trying_error_handling\<close>, \<open>Success_error_handling\<close> (U+2713), \<open>Failed\<close> (U+2717): the
    three of the second loop;
  \<^item> \<open>Trying_manual\<close>, \<open>Manual_succeeded\<close> (U+2713), \<open>Trying_text\<close>, \<open>Text_succeeded\<close>
    (U+2713), \<open>All_failed\<close> (U+2717): those after the loops;
  \<^item> \<open>Text_parsing_error\<close>: the one in the \<open>except\<close> handler of \<open>text_based_csv_parse\<close>.
\<close>

datatype message =
    Reading_CSV
  | Rule
  | Trying_pandas string
  | Success_with string dataframe
  | Failed_with string error
  | Trying_error_handling string
  | Success_error_handling dataframe
  | Failed error
  | Trying_manual
  | Manual_succeeded dataframe
  | Trying_text
  | Text_succeeded dataframe
  | All_failed
  | Text_parsing_error error

type_synonym console = "message \<Rightarrow> error option"

definition py_print :: "console \<Rightarrow> message \<Rightarrow> error + unit" where
  "py_print con m = (case con m of None \<Rightarrow> Inr () | Some e \<Rightarrow> Inl e)"

text \<open>One statement after another: an exception of the first ends the sequence.\<close>

definition and_then :: "error + 'a \<Rightarrow> ('a \<Rightarrow> error + 'b) \<Rightarrow> error + 'b" where
  "and_then r f = (case r of Inl e \<Rightarrow> Inl e | Inr x \<Rightarrow> f x)"

section \<open>Text-based parsing (app.py, text_based_csv_parse)\<close>

text \<open>
  The body of the outer \<open>try\<close>: \<open>Inr (Some df)\<close> when it returns a frame, \<open>Inr None\<close> when it
  runs to its end, \<open>Inl e\<close> when it raises. When pandas reads the cleaned content, its frame
  is returned as it is; the inner bare \<open>except\<close> catches what pandas raises.
\<close>

definition text_based_try :: "file_env \<Rightarrow> error + dataframe option" where
  "text_based_try env =
     (case read_ignore env of
        Inl e \<Rightarrow> Inl e
      | Inr content0 \<Rightarrow>
          (let content = clean_csv_content content0 in
           case pd_read_csv_text env content of
             Inr df \<Rightarrow> Inr (Some df)
           | Inl e \<Rightarrow>
               (let lines = py_split 10 (py_strip content);
                    first_line = hd lines;
                    rows = map (\<lambda>line. map py_strip (py_split (delimiter first_line) line)) lines
                in if length rows > 1
                   then (case DataFrame (tl rows) (hd rows) of
                           Inr df \<Rightarrow> Inr (Some df)
                         | Inl e' \<Rightarrow> Inl e')
                   else Inr None)))"

text \<open>
  \<^verbatim>\<open>except Exception as e:
    print(f"Text parsing error: {e}")
return pd.DataFrame()\<close>
  The \<open>print\<close> stands in the handler: what it raises leaves the function.
\<close>

definition text_based_csv_parse :: "console \<Rightarrow> file_env \<Rightarrow> error + dataframe" where
  "text_based_csv_parse con env =
     (case text_based_try env of
        Inr (Some df) \<Rightarrow> Inr df
      | Inr None \<Rightarrow> Inr DataFrame_empty
      | Inl e \<Rightarrow> and_then (py_print con (Text_parsing_error e)) (\<lambda>u. Inr DataFrame_empty))"

section \<open>The resolver (app.py, read_csv_with_fallbacks)\<close>

definition encodings :: "string list" where
  "encodings = [''utf-8'', ''latin1'', ''cp1252'', ''iso-8859-1'', ''utf-16'', ''ascii'']"

text \<open>
  Strategy 1: \<open>pd.read_csv\<close> under each encoding in turn; the first frame that is not empty
  and has more than one column is returned. An exception moves on to the next encoding.
  This is the frame the loop selects; the loop with its console writes follows below.
\<close>

fun strategy1 :: "file_env \<Rightarrow> string list \<Rightarrow> dataframe option" where
  "strategy1 env [] = None"
| "strategy1 env (encoding # rest) =
     (case pd_read_csv env encoding of
        Inr df \<Rightarrow> if \<not> df_empty df \<and> length (columns df) > 1 then Some df
                  else strategy1 env rest
      | Inl e \<Rightarrow> strategy1 env rest)"

text \<open>Strategy 2: the same sweep skipping bad lines; the first frame that is not empty.\<close>

fun strategy2 :: "file_env \<Rightarrow> string list \<Rightarrow> dataframe option" where
  "strategy2 env [] = None"
| "strategy2 env (encoding # rest) =
     (case pd_read_csv_skip env encoding of
        Inr df \<Rightarrow> if \<not> df_empty df then Some df else strategy2 env rest
      | Inl e \<Rightarrow> strategy2 env rest)"

text \<open>
  The two loops with their console writes. The body of the \<open>try\<close> of the first loop, for one
  encoding: \<open>Inr (Some df)\<close> when it returns the frame, \<open>Inr None\<close> when it runs to its end,
  \<open>Inl e\<close> when it raises, be it in pandas or in a \<open>print\<close>.
  \<^verbatim>\<open>print(f"Trying pandas with {encoding} encoding...")
df = pd.read_csv(filepath, encoding=encoding)
if not df.empty and len(df.columns) > 1:
    print(f"\<checkmark> Success with {encoding}! Shape: {df.shape}")
    return df\<close>
\<close>

definition attempt1 :: "console \<Rightarrow> file_env \<Rightarrow> string \<Rightarrow> error + dataframe option" where
  "attempt1 con env encoding =
     and_then (py_print con (Trying_pandas encoding)) (\<lambda>u.
     and_then (pd_read_csv env encoding) (\<lambda>df.
       if \<not> df_empty df \<and> length (columns df) > 1
       then and_then (py_print con (Success_with encoding df)) (\<lambda>u. Inr (Some df))
       else Inr None))"

text \<open>
  The loop: the handler \<open>except Exception as e\<close> writes the failure and the loop goes on; what
  that \<open>print\<close> raises leaves the function.
\<close>

fun strategy1_console :: "console \<Rightarrow> file_env \<Rightarrow> string list \<Rightarrow> error + dataframe option" where
  "strategy1_console con env [] = Inr None"
| "strategy1_console con env (encoding # rest) =
     (case attempt1 con env encoding of
        Inr (Some df) \<Rightarrow> Inr (Some df)
      | Inr None \<Rightarrow> strategy1_console con env rest
      | Inl e \<Rightarrow>
          and_then (py_print con (Failed_with encoding e)) (\<lambda>u. strategy1_console con env rest))"

definition attempt2 :: "console \<Rightarrow> file_env \<Rightarrow> string \<Rightarrow> error + dataframe option" where
  "attempt2 con env encoding =
     and_then (py_print con (Trying_error_handling encoding)) (\<lambda>u.
     and_then (pd_read_csv_skip env encoding) (\<lambda>df.
       if \<not> df_empty df
       then and_then (py_print con (Success_error_handling df)) (\<lambda>u. Inr (Some df))
       else Inr None))"

fun strategy2_console :: "console \<Rightarrow> file_env \<Rightarrow> string list \<Rightarrow> error + dataframe option" where
  "strategy2_console con env [] = Inr None"
| "strategy2_console con env (encoding # rest) =
     (case attempt2 con env encoding of
        Inr (Some df) \<Rightarrow> Inr (Some df)
      | Inr None \<Rightarrow> strategy2_console con env rest
      | Inl e \<Rightarrow>
          and_then (py_print con (Failed e)) (\<lambda>u. strategy2_console con env rest))"

text \<open>
  The function: the two loops, manual tokenization, text-based parsing, and
  \<open>return pd.DataFrame()\<close> at the end. The writes after the loops stand outside any \<open>try\<close>, the
  one before \<open>return pd.DataFrame()\<close> included.
\<close>

definition read_csv_with_fallbacks :: "console \<Rightarrow> file_env \<Rightarrow> error + dataframe" where
  "read_csv_with_fallbacks con env =
     and_then (py_print con Reading_CSV) (\<lambda>u.
     and_then (py_print con Rule) (\<lambda>u.
     and_then (strategy1_console con env encodings) (\<lambda>found1.
       case found1 of
         Some df \<Rightarrow> Inr df
       | None \<Rightarrow>
           and_then (strategy2_console con env encodings) (\<lambda>found2.
             case found2 of
               Some df \<Rightarrow> Inr df
             | None \<Rightarrow>
                 and_then (py_print con Trying_manual) (\<lambda>u.
                 and_then (manual_csv_parse env) (\<lambda>df.
                   if \<not> df_empty df
                   then and_then (py_print con (Manual_succeeded df)) (\<lambda>u. Inr df)
                   else
                     and_then (py_print con Trying_text) (\<lambda>u.
                     and_then (text_based_csv_parse con env) (\<lambda>df'.
                       if \<not> df_empty df'
                       then and_then (py_print con (Text_succeeded df')) (\<lambda>u. Inr df')
                       else and_then (py_print con All_failed) (\<lambda>u. Inr DataFrame_empty)))))))))"

section \<open>Encoding detection (app.py, detect_file_encoding)\<close>

text \<open>
  \<open>chardet.detect\<close> is a parameter: its result holds an encoding name (or \<open>None\<close>) and a
  confidence. \<open>file_bytes\<close> is the outcome of opening the file for reading bytes.
\<close>

record chardet_result =
  encoding :: "string option"
  confidence :: rat

definition detect_file_encoding ::
    "(error + nat list) \<Rightarrow> (nat list \<Rightarrow> error + chardet_result) \<Rightarrow> string option" where
  "detect_file_encoding file_bytes chardet_detect =
     (case file_bytes of
        Inl e \<Rightarrow> Some ''utf-8''
      | Inr bytes \<Rightarrow>
          (case chardet_detect (take 100000 bytes) of
             Inl e \<Rightarrow> Some ''utf-8''
           | Inr result \<Rightarrow>
               if confidence result > 7 / 10 then encoding result else Some ''utf-8''))"

section \<open>Example files\<close>

text \<open>
  A file of the given text on which every pandas call raises, read by the line-wise
  \<open>csv.reader\<close>.
\<close>

definition text_env :: "pystr \<Rightarrow> file_env" where
  "text_env text =
     \<lparr>pd_read_csv = (\<lambda>enc. Inl ParserError),
      pd_read_csv_skip = (\<lambda>enc. Inl ParserError),
      read_replace = (\<lambda>enc. Inr text),
      read_ignore = Inr text,
      csv_reader = csv_reader_lines,
      pd_read_csv_text = (\<lambda>content. Inl ParserError)\<rparr>"

text \<open>The empty file: pandas raises \<open>EmptyDataError\<close> on it under every encoding.\<close>

definition empty_file_env :: file_env where
  "empty_file_env =
     \<lparr>pd_read_csv = (\<lambda>enc. Inl EmptyDataError),
      pd_read_csv_skip = (\<lambda>enc. Inl EmptyDataError),
      read_replace = (\<lambda>enc. Inr []),
      read_ignore = Inr [],
      csv_reader = csv_reader_lines,
      pd_read_csv_text = (\<lambda>content. Inl EmptyDataError)\<rparr>"

text \<open>A frame is rectangular when every column is as long as the index.\<close>

definition wf_df :: "dataframe \<Rightarrow> bool" where
  "wf_df d \<longleftrightarrow> list_all (\<lambda>(l, s). series_len s = index_len d) (columns d)"

text \<open>The file \<^verbatim>\<open>a,b\n1,2,3\n\<close>: a header of two names and a row of three cells.\<close>

definition ragged_text :: pystr where
  "ragged_text = str ''a,b'' @ [10] @ str ''1,2,3'' @ [10]"

text \<open>
  The file \<^verbatim>\<open>a|b\t\n1|2\n\<close>: its first line holds one tab and one pipe, the tab
  at its end.
\<close>

definition tab_pipe_text :: pystr where
  "tab_pipe_text = str ''a|b'' @ [9, 10] @ str ''1|2'' @ [10]"

section \<open>The robust reader of the cleaner (simple\_cleaner.py, \_read\_csv\_robustly)\<close>

text \<open>
  The outcomes of the three strategies are the parameter: a strategy returns a frame or
  \<open>None\<close>, or raises (each writes to the console in its \<open>except\<close> handlers), and
  \<open>_read_csv_robustly\<close> catches nothing. The first outcome that is a non-empty frame is
  returned, and \<open>pd.DataFrame()\<close> when there is none.
\<close>

fun read_csv_robustly :: "(error + dataframe option) list \<Rightarrow> error + dataframe" where
  "read_csv_robustly [] = Inr DataFrame_empty"
| "read_csv_robustly (Inl e # strategies) = Inl e"
| "read_csv_robustly (Inr None # strategies) = read_csv_robustly strategies"
| "read_csv_robustly (Inr (Some df) # strategies) =
     (if \<not> df_empty df then Inr df else read_csv_robustly strategies)"

section \<open>Exhausted tiers\<close>

text \<open>The acceptance tests of strategy 1 and of strategy 2 on the outcome of a pandas call.\<close>

definition accepted1 :: "error + dataframe \<Rightarrow> bool" where
  "accepted1 r = (case r of Inl e \<Rightarrow> False | Inr df \<Rightarrow> \<not> df_empty df \<and> length (columns df) > 1)"

definition accepted2 :: "error + dataframe \<Rightarrow> bool" where
  "accepted2 r = (case r of Inl e \<Rightarrow> False | Inr df \<Rightarrow> \<not> df_empty df)"

text \<open>
  Every tier of \<open>read_csv_with_fallbacks\<close> has failed: each pandas call of both sweeps
  raised or gave a frame that was not accepted, and manual tokenization and text-based
  parsing each returned an empty frame.
\<close>

definition tiers_exhausted :: "console \<Rightarrow> file_env \<Rightarrow> bool" where
  "tiers_exhausted con env \<longleftrightarrow>
     list_all (\<lambda>enc. \<not> accepted1 (pd_read_csv env enc)) encodings \<and>
     list_all (\<lambda>enc. \<not> accepted2 (pd_read_csv_skip env enc)) encodings \<and>
     (case manual_csv_parse env of Inl e \<Rightarrow> False | Inr df \<Rightarrow> df_empty df) \<and>
     (case text_based_csv_parse con env of Inl e \<Rightarrow> False | Inr df \<Rightarrow> df_empty df)"

text \<open>
  A console that takes every message, as a UTF-8 terminal does, and one that cannot encode
  the two marks.
\<close>

definition utf8_console :: console where
  "utf8_console m = None"

definition ascii_console :: console where
  "ascii_console m =
     (case m of
        Success_with enc fr \<Rightarrow> Some UnicodeEncodeError
      | Failed_with enc e \<Rightarrow> Some UnicodeEncodeError
      | Success_error_handling fr \<Rightarrow> Some UnicodeEncodeError
      | Failed e \<Rightarrow> Some UnicodeEncodeError
      | Manual_succeeded fr \<Rightarrow> Some UnicodeEncodeError
      | Text_succeeded fr \<Rightarrow> Some UnicodeEncodeError
      | All_failed \<Rightarrow> Some UnicodeEncodeError
      | _ \<Rightarrow> None)"

text \<open>
  The file \<^verbatim>\<open>a,b\n\<close>, a header without rows: pandas raises nothing on it and returns a
  frame of two columns without rows (under UTF-16 the four bytes are the two characters
  U+2C61 U+0A62, a header of one name).
\<close>

definition header_only_frame :: dataframe where
  "header_only_frame =
     \<lparr>index_len = 0, columns = [(Some (str ''a''), ObjCol []), (Some (str ''b''), ObjCol [])]\<rparr>"

definition header_only_env :: file_env where
  "header_only_env =
     \<lparr>pd_read_csv = (\<lambda>enc. if enc = ''utf-16''
                           then Inr \<lparr>index_len = 0, columns = [(Some [11361, 2658], ObjCol [])]\<rparr>
                           else Inr header_only_frame),
      pd_read_csv_skip = (\<lambda>enc. if enc = ''utf-16''
                           then Inr \<lparr>index_len = 0, columns = [(Some [11361, 2658], ObjCol [])]\<rparr>
                           else Inr header_only_frame),
      read_replace = (\<lambda>enc. if enc = ''utf-16'' then Inr [11361, 2658] else Inr (str ''a,b'' @ [10])),
      read_ignore = Inr (str ''a,b'' @ [10]),
      csv_reader = csv_reader_lines,
      pd_read_csv_text = (\<lambda>content. Inr header_only_frame)\<rparr>"

text \<open>A file that cannot be opened: every library call on it raises \<open>OSError\<close>.\<close>

definition unreadable_env :: file_env where
  "unreadable_env =
     \<lparr>pd_read_csv = (\<lambda>enc. Inl OSError),
      pd_read_csv_skip = (\<lambda>enc. Inl OSError),
      read_replace = (\<lambda>enc. Inl OSError),
      read_ignore = Inl OSError,
      csv_reader = csv_reader_lines,
      pd_read_csv_text = (\<lambda>content. Inl EmptyDataError)\<rparr>"

section \<open>The detected encoding\<close>

text \<open>
  The structured-parse tier as claim C4 words it, for comparison with \<open>strategy1\<close>: the
  detected encoding is tried first, then the fixed list.
\<close>

definition strategy1_detected_first :: "file_env \<Rightarrow> string \<Rightarrow> dataframe option" where
  "strategy1_detected_first env detected = strategy1 env (detected # encodings)"

text \<open>
  The 21-byte Windows-1252 file \<^verbatim>\<open>item,price\ncoffee,\x803\n\<close>, whose byte 0x80 is the
  euro sign. It is not valid UTF-8, UTF-16 or ASCII; Latin-1 decodes the byte to U+0080 and
  Windows-1252 to U+20AC. \<open>chardet\<close> reports Windows-1252 with confidence 0.73.
\<close>

definition euro_frame :: "nat \<Rightarrow> dataframe" where
  "euro_frame c =
     \<lparr>index_len = 1,
      columns = [(Some (str ''item''), ObjCol [Some (str ''coffee'')]),
                 (Some (str ''price''), ObjCol [Some [c, 51]])]\<rparr>"

definition euro_env :: file_env where
  "euro_env =
     \<lparr>pd_read_csv = (\<lambda>enc. if enc = ''cp1252'' \<or> enc = ''Windows-1252'' then Inr (euro_frame 8364)
                           else if enc = ''latin1'' \<or> enc = ''iso-8859-1'' then Inr (euro_frame 128)
                           else Inl UnicodeDecodeError),
      pd_read_csv_skip = (\<lambda>enc. if enc = ''cp1252'' \<or> enc = ''Windows-1252'' then Inr (euro_frame 8364)
                           else if enc = ''latin1'' \<or> enc = ''iso-8859-1'' then Inr (euro_frame 128)
                           else Inl UnicodeDecodeError),
      read_replace = (\<lambda>enc. if enc = ''cp1252'' then Inr (str ''item,price'' @ [10] @ str ''coffee,'' @ [8364, 51, 10])
                           else if enc = ''latin1'' \<or> enc = ''iso-8859-1''
                           then Inr (str ''item,price'' @ [10] @ str ''coffee,'' @ [128, 51, 10])
                           else if enc = ''utf-16''
                           then Inr [29801, 28005, 28716, 26994, 25955, 25354, 26223, 25958, 11365, 13184, 65533]
                           else Inr (str ''item,price'' @ [10] @ str ''coffee,'' @ [65533, 51, 10])),
      read_ignore = Inr (str ''item,price'' @ [10] @ str ''coffee,'' @ [51, 10]),
      csv_reader = csv_reader_lines,
      pd_read_csv_text = (\<lambda>content. Inl ParserError)\<rparr>"

definition euro_bytes :: "nat list" where
  "euro_bytes = str ''item,price'' @ [10] @ str ''coffee,'' @ [128, 51, 10]"

definition euro_chardet :: "nat list \<Rightarrow> error + chardet_result" where
  "euro_chardet bytes = Inr \<lparr>encoding = Some ''Windows-1252'', confidence = 73 / 100\<rparr>"

text \<open>The data line \<^verbatim>\<open>1,"x,y",3\<close>, a record of three fields.\<close>

definition quoted_line :: pystr where
  "quoted_line = str ''1,'' @ [34] @ str ''x,y'' @ [34] @ str '',3''"

section \<open>Column names (simple\_cleaner.py, \_clean\_column\_name)\<close>

text \<open>
  Python's character database is a parameter: \<open>isalnum c\<close> is \<open>str.isalnum\<close> of the code
  point \<open>c\<close>, and \<open>lower s\<close> is \<open>s.lower()\<close> (a function of the whole string: the
  lowercase of a character may be several characters and may depend on its neighbours).
  The regular expression class \<open>\w\<close> holds the alphanumeric code points and the underscore,
  \<open>\s\<close> the whitespace of \<open>isspace\<close>.
\<close>

record unicode_db =
  isalnum :: "nat \<Rightarrow> bool"
  lower :: "pystr \<Rightarrow> pystr"

definition is_word :: "unicode_db \<Rightarrow> nat \<Rightarrow> bool" where
  "is_word u c \<longleftrightarrow> isalnum u c \<or> c = 95"

text \<open>\<open>re.sub(r'[^\w\s]', '', col)\<close>\<close>

definition remove_special :: "unicode_db \<Rightarrow> pystr \<Rightarrow> pystr" where
  "remove_special u col = filter (\<lambda>c. is_word u c \<or> isspace c) col"

text \<open>\<open>re.sub(r'\s+', '_', col)\<close>: every maximal run of whitespace becomes one underscore.\<close>

function spaces_to_underscores :: "pystr \<Rightarrow> pystr" where
  "spaces_to_underscores [] = []"
| "spaces_to_underscores (c # cs) =
     (if isspace c then 95 # spaces_to_underscores (dropWhile isspace cs)
      else c # spaces_to_underscores cs)"
  by pat_completeness auto
termination
  by (relation "measure length") (auto simp: length_dropWhile_le le_imp_less_Suc)

text \<open>
  \<^verbatim>\<open>if pd.isna(col): return 'unknown_column'
col = str(col).strip()
col = re.sub(r'[^\w\s]', '', col)
col = re.sub(r'\s+', '_', col)
col = col.lower()
if not col: return 'column'
return col\<close>
\<close>

definition clean_column_name :: "unicode_db \<Rightarrow> label \<Rightarrow> pystr" where
  "clean_column_name u col =
     (case col of
        None \<Rightarrow> str ''unknown_column''
      | Some name \<Rightarrow>
          (let col1 = py_strip name;
               col2 = remove_special u col1;
               col3 = spaces_to_underscores col2;
               col4 = lower u col3
           in if col4 = [] then str ''column'' else col4))"

text \<open>
  An excerpt of the character database: the ASCII letters and digits and the letter U+0130
  (capital I with dot above) are alphanumeric, the combining dot above U+0307 is not; the
  lowercase of an ASCII capital is its small letter and that of U+0130 is U+0069 U+0307.
\<close>

definition ascii_alnum :: "nat \<Rightarrow> bool" where
  "ascii_alnum c \<longleftrightarrow> (48 \<le> c \<and> c \<le> 57) \<or> (65 \<le> c \<and> c \<le> 90) \<or> (97 \<le> c \<and> c \<le> 122)"

definition lower_char :: "nat \<Rightarrow> pystr" where
  "lower_char c = (if 65 \<le> c \<and> c \<le> 90 then [c + 32] else if c = 304 then [105, 775] else [c])"

definition python_db :: unicode_db where
  "python_db = \<lparr>isalnum = (\<lambda>c. ascii_alnum c \<or> c = 304), lower = (\<lambda>s. concat (map lower_char s))\<rparr>"

text \<open>The characters of a finished ASCII name: digits, small letters and the underscore.\<close>

definition plain_char :: "nat \<Rightarrow> bool" where
  "plain_char c \<longleftrightarrow> (48 \<le> c \<and> c \<le> 57) \<or> (97 \<le> c \<and> c \<le> 122) \<or> c = 95"

section \<open>The cleaning engine (simple\_cleaner.py and data\_cleaner.py)\<close>

text \<open>The options dict: a key that is absent is \<open>None\<close>.\<close>

record cleaning_options =
  missing_threshold :: "rat option"
  handle_missing :: "string option"
  handle_duplicates :: "string option"
  standardize_text :: "bool option"

datatype report_value = IntVal int | StrVal string

type_synonym report = "string \<rightharpoonup> report_value"

record cleaner =
  df :: dataframe
  options :: cleaning_options
  report :: report
  original_shape :: "nat \<times> nat"

text \<open>
  \<open>__init__\<close> and \<open>_load_data\<close>, from the frame the reader returned (\<open>None\<close> when it
  returned \<open>None\<close>): the report starts empty and gets the original counts only when the frame
  is not empty.
\<close>

definition load_data :: "dataframe option \<Rightarrow> cleaning_options \<Rightarrow> cleaner" where
  "load_data loaded opts =
     (case loaded of
        Some d \<Rightarrow>
          if \<not> df_empty d
          then \<lparr>df = d, options = opts,
                report = [''original_rows'' \<mapsto> IntVal (int (index_len d)),
                          ''original_columns'' \<mapsto> IntVal (int (length (columns d)))],
                original_shape = (index_len d, length (columns d))\<rparr>
          else \<lparr>df = DataFrame_empty, options = opts, report = Map.empty, original_shape = (0, 0)\<rparr>
      | None \<Rightarrow> \<lparr>df = DataFrame_empty, options = opts, report = Map.empty, original_shape = (0, 0)\<rparr>)"

subsection \<open>Sparse columns\<close>

fun null_count :: "series \<Rightarrow> nat" where
  "null_count (NumCol xs) = length (filter (\<lambda>c. c = None) xs)"
| "null_count (ObjCol xs) = length (filter (\<lambda>c. c = None) xs)"

text \<open>
  The quotient \<open>k / n\<close> of two integers in float64, as the rational number the float
  stands for: the quotient rounded to 53 significant bits, to the nearest such number and to
  the even one of two that are equally near. \<open>shift_up\<close> and \<open>shift_down\<close> find the power of
  two that brings the quotient into the range from \<open>2^52\<close> up to \<open>2^53\<close>, where the floats
  are the integers. (Counts of cells are far from the range where float64 overflows or loses
  bits to subnormal numbers.)
\<close>

function shift_up :: "nat \<Rightarrow> nat \<Rightarrow> nat \<Rightarrow> nat" where
  "shift_up k n a = (if k = 0 \<or> n * 2 ^ 52 \<le> k * 2 ^ a then a else shift_up k n (Suc a))"
  by pat_completeness auto
termination
proof (relation "measure (\<lambda>(k, n, a). n * 2 ^ 52 - k * 2 ^ a)", goal_cases)
  case 1 show ?case by simp
next
  case (2 k n a)
  define x where "x = k * 2 ^ a"
  have "0 < x" "x < n * 2 ^ 52" "k * 2 ^ Suc a = 2 * x" using 2 by (simp_all add: x_def)
  then show ?case unfolding in_measure prod.case x_def [symmetric] by linarith
qed

function shift_down :: "nat \<Rightarrow> nat \<Rightarrow> nat \<Rightarrow> nat" where
  "shift_down k n b = (if n = 0 \<or> k < n * 2 ^ 53 * 2 ^ b then b else shift_down k n (Suc b))"
  by pat_completeness auto
termination
proof (relation "measure (\<lambda>(k, n, b). Suc k - n * 2 ^ 53 * 2 ^ b)", goal_cases)
  case 1 show ?case by simp
next
  case (2 k n b)
  define y where "y = n * 2 ^ 53 * 2 ^ b"
  have "0 < y" "y \<le> k" "n * 2 ^ 53 * 2 ^ Suc b = 2 * y" using 2 by (simp_all add: y_def)
  then show ?case unfolding in_measure prod.case y_def [symmetric] by linarith
qed

declare shift_up.simps [simp del] shift_down.simps [simp del]

definition truediv :: "nat \<Rightarrow> nat \<Rightarrow> rat" where
  "truediv k n =
     (if k = 0 then 0
      else (let a = shift_up k n 0; b = shift_down k n 0;
                num = k * 2 ^ a; den = n * 2 ^ b;
                q = num div den; r = num mod den;
                m = (if den < 2 * r \<or> (2 * r = den \<and> odd q) then q + 1 else q)
            in of_nat (m * 2 ^ b) / of_nat (2 ^ a)))"

text \<open>
  \<open>df.isnull().sum() / len(df)\<close> for one column, a float64; the quotient by an index of
  length 0 is not a number (\<open>None\<close>), and no comparison with it holds. The threshold is a
  float64 too (\<open>float(request.form.get('missing_threshold', 0.5))\<close>): \<open>threshold\<close> is the
  rational number it stands for.
\<close>

definition missing_percent :: "dataframe \<Rightarrow> series \<Rightarrow> rat option" where
  "missing_percent d s =
     (if index_len d = 0 then None else Some (truediv (null_count s) (index_len d)))"

definition exceeds :: "rat option \<Rightarrow> rat \<Rightarrow> bool" where
  "exceeds p threshold = (case p of None \<Rightarrow> False | Some q \<Rightarrow> q > threshold)"

text \<open>
  \<^verbatim>\<open>cols_to_drop = missing_percent[missing_percent > threshold].index.tolist()
if cols_to_drop:
    self.df = self.df.drop(columns=cols_to_drop)\<close>
  \<open>drop\<close> works on labels: it removes every column that carries one of the labels.
\<close>

definition cols_to_drop :: "rat \<Rightarrow> dataframe \<Rightarrow> label list" where
  "cols_to_drop threshold d =
     map fst (filter (\<lambda>(l, s). exceeds (missing_percent d s) threshold) (columns d))"

definition drop_columns :: "label list \<Rightarrow> dataframe \<Rightarrow> dataframe" where
  "drop_columns labels d = d\<lparr>columns := filter (\<lambda>(l, s). l \<notin> set labels) (columns d)\<rparr>"

definition drop_sparse_columns :: "rat \<Rightarrow> dataframe \<Rightarrow> dataframe" where
  "drop_sparse_columns threshold d =
     (if cols_to_drop threshold d \<noteq> [] then drop_columns (cols_to_drop threshold d) d else d)"

text \<open>The stage of simple\_cleaner.py runs only for a threshold below 1, with default 0.5.\<close>

definition drop_stage :: "cleaning_options \<Rightarrow> dataframe \<Rightarrow> dataframe" where
  "drop_stage opts d =
     (let threshold = (case missing_threshold opts of None \<Rightarrow> 1 / 2 | Some t \<Rightarrow> t)
      in if threshold < 1 then drop_sparse_columns threshold d else d)"

subsection \<open>Missing values\<close>

text \<open>
  \<open>Series.median()\<close>, \<open>Series.mean()\<close> and the first entry of \<open>Series.mode()\<close> over the
  cells that are present; \<open>None\<close> when there is none. The modes come sorted, so the first is
  the least of the most frequent values.
\<close>

definition present :: "'a option list \<Rightarrow> 'a list" where
  "present xs = map the (filter (\<lambda>c. c \<noteq> None) xs)"

definition median :: "rat list \<Rightarrow> rat option" where
  "median xs =
     (if xs = [] then None
      else (let ys = sort xs; n = length ys
            in if odd n then Some (ys ! (n div 2))
               else Some ((ys ! (n div 2 - 1) + ys ! (n div 2)) / 2)))"

definition mean :: "rat list \<Rightarrow> rat option" where
  "mean xs = (if xs = [] then None else Some (sum_list xs / of_nat (length xs)))"

definition mode :: "('a::linorder) list \<Rightarrow> 'a option" where
  "mode xs =
     (if xs = [] then None
      else (let top = fold max (map (count_list xs) xs) 0;
                modes = filter (\<lambda>x. count_list xs x = top) xs
            in Some (fold min (tl modes) (hd modes))))"

text \<open>\<open>Series.fillna(value)\<close>; filling with a value that is not a number changes nothing.\<close>

definition fillna :: "'a option \<Rightarrow> 'a option list \<Rightarrow> 'a option list" where
  "fillna v xs = map (\<lambda>c. case c of None \<Rightarrow> v | Some x \<Rightarrow> Some x) xs"

fun has_null :: "series \<Rightarrow> bool" where
  "has_null (NumCol xs) = (None \<in> set xs)"
| "has_null (ObjCol xs) = (None \<in> set xs)"

text \<open>
  The column step of simple\_cleaner.py: the \<open>handle_missing\<close> option is not read.
  \<^verbatim>\<open>if self.df[col].isnull().any():
    if pd.api.types.is_numeric_dtype(self.df[col]):
        fill_value = self.df[col].median()
        self.df[col] = self.df[col].fillna(fill_value)
    else:
        self.df[col] = self.df[col].fillna('Unknown')\<close>
\<close>

fun fill_column :: "series \<Rightarrow> series" where
  "fill_column (NumCol xs) = (if None \<in> set xs then NumCol (fillna (median (present xs)) xs) else NumCol xs)"
| "fill_column (ObjCol xs) = (if None \<in> set xs then ObjCol (fillna (Some (str ''Unknown'')) xs) else ObjCol xs)"

text \<open>
  The column step of data\_cleaner.py, with \<open>method = options.get('handle_missing', 'auto')\<close>.
  Filling a numeric column with the string \<open>'Unknown'\<close> happens only when it has no mode, that
  is when every cell is missing; the column then holds that string in every cell.
\<close>

fun fill_column_method :: "string \<Rightarrow> series \<Rightarrow> series" where
  "fill_column_method method (NumCol xs) =
     (if None \<notin> set xs then NumCol xs
      else if method = ''mean'' then NumCol (fillna (mean (present xs)) xs)
      else if method = ''median'' then NumCol (fillna (median (present xs)) xs)
      else if method = ''mode''
      then (case mode (present xs) of
              Some m \<Rightarrow> NumCol (fillna (Some m) xs)
            | None \<Rightarrow> ObjCol (map (\<lambda>c. Some (str ''Unknown'')) xs))
      else NumCol (fillna (median (present xs)) xs))"
| "fill_column_method method (ObjCol xs) =
     (if None \<notin> set xs then ObjCol xs
      else if method = ''mode''
      then (case mode (present xs) of
              Some m \<Rightarrow> ObjCol (fillna (Some m) xs)
            | None \<Rightarrow> ObjCol (fillna (Some (str ''Unknown'')) xs))
      else ObjCol (fillna (Some (str ''Unknown'')) xs))"

text \<open>
  The loop over \<open>self.df.columns\<close>. With a label that two columns carry, \<open>self.df[col]\<close>
  is a frame, \<open>.isnull().any()\<close> a series of several truth values, and its use as a condition
  raises \<open>ValueError\<close>.
\<close>

definition fill_stage :: "(series \<Rightarrow> series) \<Rightarrow> dataframe \<Rightarrow> error + dataframe" where
  "fill_stage step d =
     (if \<not> distinct (map fst (columns d)) then Inl ValueError
      else Inr (d\<lparr>columns := map (\<lambda>(l, s). (l, step s)) (columns d)\<rparr>))"

subsection \<open>Duplicate rows\<close>

datatype cell = NumCell "rat option" | ObjCell "pystr option"

fun cell_at :: "series \<Rightarrow> nat \<Rightarrow> cell" where
  "cell_at (NumCol xs) i = NumCell (xs ! i)"
| "cell_at (ObjCol xs) i = ObjCell (xs ! i)"

definition frame_rows :: "dataframe \<Rightarrow> cell list list" where
  "frame_rows d = map (\<lambda>i. map (\<lambda>(l, s). cell_at s i) (columns d)) [0..<index_len d]"

text \<open>\<open>df.duplicated()\<close>: a row is marked when an earlier row equals it; a frame without columns
  or rows has no mark at all.\<close>

fun duplicated_from :: "'a list \<Rightarrow> 'a list \<Rightarrow> bool list" where
  "duplicated_from seen [] = []"
| "duplicated_from seen (r # rs) = (r \<in> set seen) # duplicated_from (r # seen) rs"

definition duplicated :: "dataframe \<Rightarrow> bool list" where
  "duplicated d = (if df_empty d then [] else duplicated_from [] (frame_rows d))"

definition select :: "bool list \<Rightarrow> 'a list \<Rightarrow> 'a list" where
  "select keep xs = map snd (filter fst (zip keep xs))"

fun select_series :: "bool list \<Rightarrow> series \<Rightarrow> series" where
  "select_series keep (NumCol xs) = NumCol (select keep xs)"
| "select_series keep (ObjCol xs) = ObjCol (select keep xs)"

definition drop_duplicates :: "dataframe \<Rightarrow> dataframe" where
  "drop_duplicates d =
     (if df_empty d then d
      else (let keep = map Not (duplicated d)
            in \<lparr>index_len = length (filter id keep),
                columns = map (\<lambda>(l, s). (l, select_series keep s)) (columns d)\<rparr>))"

subsection \<open>Text columns\<close>

text \<open>
  \<^verbatim>\<open>sample = self.df[col].dropna().iloc[0] if not self.df[col].dropna().empty else ''
if not (isinstance(sample, str) and ('$' in sample or sample.startswith('['))):
    self.df[col] = self.df[col].astype(str).str.strip()\<close>
  \<open>astype(str)\<close> turns a missing cell into the string \<open>nan\<close>.
\<close>

fun standardize_column :: "series \<Rightarrow> series" where
  "standardize_column (NumCol xs) = NumCol xs"
| "standardize_column (ObjCol xs) =
     (let sample = (case present xs of [] \<Rightarrow> [] | v # vs \<Rightarrow> v)
      in if 36 \<in> set sample \<or> (sample \<noteq> [] \<and> hd sample = 91) then ObjCol xs
         else ObjCol (map (\<lambda>c. Some (py_strip (case c of None \<Rightarrow> str ''nan'' | Some v \<Rightarrow> v))) xs))"

subsection \<open>The pipeline of simple\_cleaner.py (clean\_data)\<close>

text \<open>
  The cleaner after the call and the report it returns; \<open>now\<close> is
  \<open>datetime.now().isoformat()\<close> at the end of the run.
\<close>

definition clean_data :: "unicode_db \<Rightarrow> string \<Rightarrow> cleaner \<Rightarrow> error + cleaner \<times> report" where
  "clean_data u now c =
     (if df_empty (df c)
      then (let r = (report c)(''error'' \<mapsto> StrVal ''Empty DataFrame'')
            in Inr (c\<lparr>report := r\<rparr>, r))
      else
        (let original_rows = fst (original_shape c);
             original_cols = snd (original_shape c);
             d1 = (df c)\<lparr>columns := map (\<lambda>(l, s). (Some (clean_column_name u l), s)) (columns (df c))\<rparr>;
             d2 = drop_stage (options c) d1
         in case fill_stage fill_column d2 of
              Inl e \<Rightarrow> Inl e
            | Inr d3 \<Rightarrow>
                (let drop = ((case handle_duplicates (options c) of None \<Rightarrow> ''drop'' | Some h \<Rightarrow> h) = ''drop'');
                     duplicates_count = length (filter id (duplicated d3));
                     d4 = (if drop \<and> duplicates_count > 0 then drop_duplicates d3 else d3);
                     r4 = (if drop \<and> duplicates_count > 0
                           then (report c)(''duplicates_removed'' \<mapsto> IntVal (int duplicates_count))
                           else report c);
                     d5 = (if standardize_text (options c) = Some True
                           then d4\<lparr>columns := map (\<lambda>(l, s). (l, standardize_column s)) (columns d4)\<rparr>
                           else d4);
                     r5 = r4(''final_rows'' \<mapsto> IntVal (int (index_len d5)),
                             ''final_columns'' \<mapsto> IntVal (int (length (columns d5))),
                             ''rows_removed'' \<mapsto> IntVal (int original_rows - int (index_len d5)),
                             ''columns_removed'' \<mapsto> IntVal (int original_cols - int (length (columns d5))),
                             ''cleaning_timestamp'' \<mapsto> StrVal now,
                             ''note'' \<mapsto> StrVal ''Simple cleaning applied'')
                 in Inr (c\<lparr>df := d5, report := r5\<rparr>, r5))))"

text \<open>The columns the stage removes, for comparison of two thresholds.\<close>

definition dropped :: "rat \<Rightarrow> dataframe \<Rightarrow> (label \<times> series) list" where
  "dropped threshold d = filter (\<lambda>(l, s). l \<in> set (cols_to_drop threshold d)) (columns d)"

text \<open>
  The frame pandas reads from \<^verbatim>\<open>A,a\n,1\n,2\n\<close>: the column \<open>A\<close> has no value at all,
  the column \<open>a\<close> has no missing cell. And that frame with both labels normalized.
\<close>

definition frame_Aa :: dataframe where
  "frame_Aa = \<lparr>index_len = 2,
               columns = [(Some (str ''A''), NumCol [None, None]),
                          (Some (str ''a''), NumCol [Some 1, Some 2])]\<rparr>"

definition frame_aa :: dataframe where
  "frame_aa = \<lparr>index_len = 2,
               columns = [(Some (str ''a''), NumCol [None, None]),
                          (Some (str ''a''), NumCol [Some 1, Some 2])]\<rparr>"

definition default_options :: cleaning_options where
  "default_options = \<lparr>missing_threshold = None, handle_missing = None, handle_duplicates = None,
                       standardize_text = None\<rparr>"

text \<open>A frame with one column of which three cells in five are missing.\<close>

definition sparse_frame :: dataframe where
  "sparse_frame = \<lparr>index_len = 5,
                   columns = [(Some (str ''x''), NumCol [None, Some 1, None, Some 2, None]),
                              (Some (str ''y''), NumCol [Some 1, Some 2, Some 3, Some 4, Some 5])]\<rparr>"

text \<open>
  A frame of three rows with one cell of the column \<open>x\<close> missing, and the float64 that the
  literal \<open>0.3333333333333333\<close> and the quotient \<open>1 / 3\<close> both give.
\<close>

definition thirds_frame :: dataframe where
  "thirds_frame = \<lparr>index_len = 3,
                   columns = [(Some (str ''x''), NumCol [None, Some 1, Some 2]),
                              (Some (str ''y''), NumCol [Some 1, Some 2, Some 3])]\<rparr>"

definition one_third :: rat where
  "one_third = 6004799503160661 / 18014398509481984"

text \<open>A numeric and a text column, each with one missing cell.\<close>

definition num_example :: "rat option list" where
  "num_example = [Some 1, Some 2, Some 6, None]"

definition obj_example :: "pystr option list" where
  "obj_example = [Some (str ''a''), None, Some (str ''a''), Some (str ''b'')]"

section \<open>Temporary files (csv\_fixer.py, smart\_read\_csv)\<close>

text \<open>
  The files on disk: a map from paths to contents. \<open>pd_read content\<close> is the outcome of
  \<open>pd.read_csv\<close> on a file of that content; reading a path that is not on disk raises.
\<close>

type_synonym disk = "string \<rightharpoonup> pystr"

definition read_csv_path :: "(pystr \<Rightarrow> error + dataframe) \<Rightarrow> disk \<Rightarrow> string \<Rightarrow> error + dataframe" where
  "read_csv_path pd_read files path =
     (case files path of None \<Rightarrow> Inl OSError | Some content \<Rightarrow> pd_read content)"

text \<open>
  \<open>fix_csv_issues\<close> reads the file, repairs its text (\<open>fix\<close>, a parameter: the file's
  life does not depend on it), creates a temporary file with \<open>delete=False\<close> under a new
  name \<open>temp_path\<close>, writes the repaired text to it and returns its path.
\<close>

definition fix_csv_issues ::
    "(pystr \<Rightarrow> pystr) \<Rightarrow> string \<Rightarrow> string \<Rightarrow> disk \<Rightarrow> error + string \<times> disk" where
  "fix_csv_issues fix temp_path filepath files =
     (case files filepath of
        None \<Rightarrow> Inl OSError
      | Some content \<Rightarrow> Inr (temp_path, files(temp_path \<mapsto> fix content)))"

text \<open>
  \<^verbatim>\<open>try:
    return pd.read_csv(filepath)
except Exception as e: ...
fixed_path = None
try:
    fixed_path = fix_csv_issues(filepath)
    df = pd.read_csv(fixed_path)
    if fixed_path and os.path.exists(fixed_path):
        os.unlink(fixed_path)
    return df
except Exception as e:
    return manual_csv_parse(filepath)\<close>
  The result and the files on disk afterwards; \<open>manual\<close> is the outcome of
  \<open>manual_csv_parse(filepath)\<close>, which writes nothing.
\<close>

definition smart_read_csv ::
    "(pystr \<Rightarrow> error + dataframe) \<Rightarrow> (pystr \<Rightarrow> pystr) \<Rightarrow> (error + dataframe) \<Rightarrow>
     string \<Rightarrow> string \<Rightarrow> disk \<Rightarrow> (error + dataframe) \<times> disk" where
  "smart_read_csv pd_read fix manual temp_path filepath files =
     (case read_csv_path pd_read files filepath of
        Inr d \<Rightarrow> (Inr d, files)
      | Inl e \<Rightarrow>
          (case fix_csv_issues fix temp_path filepath files of
             Inl e1 \<Rightarrow> (manual, files)
           | Inr (fixed_path, files1) \<Rightarrow>
               (case read_csv_path pd_read files1 fixed_path of
                  Inr d \<Rightarrow> (Inr d, files1(fixed_path := None))
                | Inl e2 \<Rightarrow> (manual, files1))))"

text \<open>pandas on a file without content raises \<open>EmptyDataError\<close>; here it reads nothing else.\<close>

definition pd_read_nothing :: "pystr \<Rightarrow> error + dataframe" where
  "pd_read_nothing content = (if content = [] then Inl EmptyDataError else Inl ParserError)"

subsection \<open>The temporary file of index (app.py)\<close>

text \<open>
  The files \<open>index\<close> writes and removes while it handles an uploaded CSV file, and whether it
  renders the result page or redirects back to the form (the early return and the
  \<open>except\<close> handler both redirect).
  \<^item> \<open>env\<close> is the uploaded file as the resolver sees it and \<open>con\<close> the console the
    resolver writes to, \<open>loaded path\<close> the frame the cleaner's reader returns for the file
    at \<open>path\<close>;
  \<^item> when \<open>df_raw.empty\<close>, the text of the upload goes through \<open>clean_csv_content\<close> into a
    temporary file (\<open>delete=False\<close>) named \<open>temp_path\<close>, and the cleaner works on that file;
  \<^item> \<open>create_debug_file\<close> writes \<open>filepath + '.debug.txt'\<close>;
  \<^item> \<open>saved\<close> is the outcome of saving the cleaned data and the report, which are kept;
  \<^item> the two \<open>os.unlink\<close> calls stand after the saving.
\<close>

datatype response = Rendered | Redirected

definition index ::
    "unicode_db \<Rightarrow> string \<Rightarrow> console \<Rightarrow> file_env \<Rightarrow> (string \<Rightarrow> dataframe option) \<Rightarrow>
     cleaning_options \<Rightarrow> pystr \<Rightarrow> (error + unit) \<Rightarrow> string \<Rightarrow> string \<Rightarrow> disk \<Rightarrow>
     response \<times> disk" where
  "index u now con env loaded opts debug_text saved temp_path original_path files =
     (case read_csv_with_fallbacks con env of
        Inl e \<Rightarrow> (Redirected, files)
      | Inr df_raw \<Rightarrow>
          (case (if df_empty df_raw
                 then (case read_ignore env of
                         Inl e \<Rightarrow> Inl e
                       | Inr content \<Rightarrow>
                           Inr (temp_path, files(temp_path \<mapsto> clean_csv_content content)))
                 else Inr (original_path, files)) of
             Inl e \<Rightarrow> (Redirected, files)
           | Inr (filepath, files1) \<Rightarrow>
               (let c = load_data (loaded filepath) opts in
                if df_empty (df c) then (Redirected, files1)
                else
                  (let debug_path = filepath @ ''.debug.txt'';
                       files2 = files1(debug_path \<mapsto> debug_text)
                   in case clean_data u now c of
                        Inl e \<Rightarrow> (Redirected, files2)
                      | Inr (c', rep) \<Rightarrow>
                          (case saved of
                             Inl e \<Rightarrow> (Redirected, files2)
                           | Inr done \<Rightarrow>
                               (let files3 = (if df_empty df_raw then files2(temp_path := None)
                                              else files2)
                                in (Rendered, files3(debug_path := None))))))))"

section \<open>Properties\<close>

lemma py_split_not_Nil: "py_split sep s \<noteq> []"
  by (induction s) auto

subsection \<open>Row widths in manual tokenization\<close>

lemma fold_max_ge: "(a::nat) \<le> fold max xs a"
  by (induction xs arbitrary: a) (auto intro: order_trans [OF max.cobounded2])

lemma fold_max_mem: "x \<in> set xs \<Longrightarrow> (x::nat) \<le> fold max xs a"
proof (induction xs arbitrary: a)
  case Nil then show ?case by simp
next
  case (Cons y ys)
  show ?case
  proof (cases "x = y")
    case True
    have "y \<le> max y a" by simp
    also have "\<dots> \<le> fold max ys (max y a)" by (rule fold_max_ge)
    finally show ?thesis using True by simp
  next
    case False
    with Cons.prems have "x \<in> set ys" by simp
    then show ?thesis using Cons.IH by simp
  qed
qed

lemma widest_ge: "r \<in> set rows \<Longrightarrow> length r \<le> widest rows"
  unfolding widest_def by (rule fold_max_mem) simp

lemma pad_rows_eq:
  "pad_rows rows = map (\<lambda>r. r @ replicate (widest rows - length r) []) rows"
  unfolding pad_rows_def Let_def by (rule map_cong) (auto dest: widest_ge)

lemma pad_rows_length: "r \<in> set (pad_rows rows) \<Longrightarrow> length r = widest rows"
  unfolding pad_rows_eq by (auto dest: widest_ge)

lemma widest_const: "rows \<noteq> [] \<Longrightarrow> \<forall>r\<in>set rows. length r = n \<Longrightarrow> widest rows = n"
proof -
  assume ne: "rows \<noteq> []" and all: "\<forall>r\<in>set rows. length r = n"
  have "fold max (map length rows) a = max n a" for a
    using ne all
  proof (induction rows arbitrary: a)
    case Nil then show ?case by simp
  next
    case (Cons r rs)
    show ?case
    proof (cases "rs = []")
      case True with Cons.prems show ?thesis by (simp add: max.commute)
    next
      case False
      with Cons have "fold max (map length rs) (max (length r) a) = max n (max (length r) a)" by simp
      with Cons.prems show ?thesis by simp
    qed
  qed
  then show ?thesis by (simp add: widest_def)
qed

lemma DataFrame_wf: "DataFrame data cols = Inr d \<Longrightarrow> wf_df d"
  by (auto simp: DataFrame_def wf_df_def list_all_iff split: if_splits)

lemma DataFrame_rect:
  assumes "\<forall>r\<in>set data. length r = length cols"
  shows "DataFrame data cols =
           Inr \<lparr>index_len = length data,
                columns = map (\<lambda>j. (Some (cols ! j), ObjCol (map (\<lambda>r. Some (r ! j)) data)))
                              [0..<length cols]\<rparr>"
proof (cases "data = []")
  case True then show ?thesis by (simp add: DataFrame_def)
next
  case False
  have "widest data = length cols" by (rule widest_const [OF False assms])
  moreover have "map (\<lambda>r. if j < length r then Some (r ! j) else None) data = map (\<lambda>r. Some (r ! j)) data"
    if "j < length cols" for j using assms that by (intro map_cong) auto
  ultimately show ?thesis by (simp add: DataFrame_def)
qed

lemma df_rows_rect:
  assumes "\<forall>r\<in>set data. length r = n"
  shows "df_rows \<lparr>index_len = length data,
                columns = map (\<lambda>j. (l j, ObjCol (map (\<lambda>r. Some (r ! j)) data))) [0..<n]\<rparr>
         = map (map Some) data"
proof (rule nth_equalityI)
  show "length (df_rows \<lparr>index_len = length data,
                columns = map (\<lambda>j. (l j, ObjCol (map (\<lambda>r. Some (r ! j)) data))) [0..<n]\<rparr>) = length (map (map Some) data)"
    by (simp add: df_rows_def)
next
  fix i assume "i < length (df_rows \<lparr>index_len = length data,
                columns = map (\<lambda>j. (l j, ObjCol (map (\<lambda>r. Some (r ! j)) data))) [0..<n]\<rparr>)"
  then have i: "i < length data" by (simp add: df_rows_def)
  then have len: "length (data ! i) = n" using assms by simp
  show "df_rows \<lparr>index_len = length data,
                columns = map (\<lambda>j. (l j, ObjCol (map (\<lambda>r. Some (r ! j)) data))) [0..<n]\<rparr> ! i
        = map (map Some) data ! i"
    using i len by (auto simp: df_rows_def intro!: nth_equalityI)
qed

text \<open>
  Claim C3, as the code has it. When \<open>manual_csv_parse\<close> has more than one row, the frame
  it builds has as many columns as the longest row of the file has cells (the header row
  included): the column names are the first row completed with empty names up to that width,
  every data row is the file's row completed with empty strings up to that width and
  otherwise unchanged (no cell is merged into another), and so every row has exactly
  \<open>len(columns)\<close> cells.
\<close>

theorem manual_csv_parse_width:
  assumes rows: "manual_all_rows env = Inr rows" and more: "length rows > 1"
  shows "\<exists>d. manual_csv_parse env = Inr d \<and>
             map fst (columns d) = map Some (hd rows @ replicate (widest rows - length (hd rows)) []) \<and>
             df_rows d = map (\<lambda>r. map Some (r @ replicate (widest rows - length r) [])) (tl rows) \<and>
             length (columns d) = widest rows \<and>
             list_all (\<lambda>r. length r = length (columns d)) (df_rows d)"
proof -
  define cols where "cols = hd (pad_rows rows)"
  define data where "data = tl (pad_rows rows)"
  from more have ne: "rows \<noteq> []" by auto
  then have pne: "pad_rows rows \<noteq> []" by (simp add: pad_rows_eq)
  have cols_eq: "cols = hd rows @ replicate (widest rows - length (hd rows)) []"
    using ne by (simp add: cols_def pad_rows_eq hd_map)
  have data_eq: "data = map (\<lambda>r. r @ replicate (widest rows - length r) []) (tl rows)"
    by (simp add: data_def pad_rows_eq map_tl)
  have "cols \<in> set (pad_rows rows)" using pne by (simp add: cols_def)
  then have lc: "length cols = widest rows" by (rule pad_rows_length)
  have ld: "\<forall>r\<in>set data. length r = length cols"
  proof
    fix r assume "r \<in> set data"
    then have "r \<in> set (pad_rows rows)" using pne unfolding data_def by (auto dest: list.set_sel(2))
    then show "length r = length cols" using lc by (simp add: pad_rows_length)
  qed
  let ?d = "\<lparr>index_len = length data,
             columns = map (\<lambda>j. (Some (cols ! j), ObjCol (map (\<lambda>r. Some (r ! j)) data)))
                           [0..<length cols]\<rparr>"
  have mt: "manual_table rows = Some (cols, data)"
    using more by (simp add: manual_table_def cols_def data_def)
  have parse: "manual_csv_parse env = Inr ?d"
    using rows mt DataFrame_rect [OF ld] by (simp add: manual_csv_parse_def)
  have labels: "map fst (columns ?d) = map Some cols"
    by (auto intro!: nth_equalityI)
  have rws: "df_rows ?d = map (map Some) data"
    using ld by (rule df_rows_rect)
  have "list_all (\<lambda>r. length r = length (columns ?d)) (df_rows ?d)"
    unfolding rws using ld by (simp add: list_all_iff)
  with parse labels rws lc show ?thesis
    unfolding cols_eq [symmetric] data_eq [symmetric]
    by (intro exI [of _ ?d]) (simp add: data_eq cols_eq)
qed


lemma delimiter_cases:
  "delimiter line =
     (let c = count_list line 44; s = count_list line 59; t = count_list line 9;
          p = count_list line 124 in
      if s \<le> c \<and> t \<le> c \<and> p \<le> c then 44
      else if t \<le> s \<and> p \<le> s then 59
      else if p \<le> t then 9
      else 124)"
  by (simp add: delimiter_def py_max_def delimiters_def delimiter_counts_def Let_def)

lemma ragged_lines: "file_lines ragged_text = [str ''a,b'', str ''1,2,3'']"
  by (simp add: ragged_text_def file_lines_def str_def)

lemma ragged_rows:
  "manual_all_rows (text_env ragged_text) = Inr [[str ''a'', str ''b''], [str ''1'', str ''2'', str ''3'']]"
  by (simp add: manual_all_rows_def manual_encodings_def text_env_def ragged_lines
      csv_reader_lines_def csv_record_def str_def py_strip_def isspace_def delimiter_cases)

theorem manual_csv_parse_width_witness:
  "manual_all_rows (text_env ragged_text) = Inr [[str ''a'', str ''b''], [str ''1'', str ''2'', str ''3'']] \<and>
   (\<exists>d. manual_csv_parse (text_env ragged_text) = Inr d \<and>
        map fst (columns d) = [Some (str ''a''), Some (str ''b''), Some []] \<and>
        df_rows d = [[Some (str ''1''), Some (str ''2''), Some (str ''3'')]] \<and>
        length (columns d) = 3)"
proof -
  let ?rows = "[[str ''a'', str ''b''], [str ''1'', str ''2'', str ''3'']]"
  have a: "manual_all_rows (text_env ragged_text) = Inr ?rows"
    by (simp add: ragged_rows)
  have b: "length ?rows > 1" by simp
  have w: "widest ?rows = 3" by (simp add: widest_def)
  from manual_csv_parse_width [OF a b] obtain d where
    "manual_csv_parse (text_env ragged_text) = Inr d"
    "map fst (columns d) = map Some (hd ?rows @ replicate (widest ?rows - length (hd ?rows)) [])"
    "df_rows d = map (\<lambda>r. map Some (r @ replicate (widest ?rows - length r) [])) (tl ?rows)"
    "length (columns d) = widest ?rows"
    by blast
  then show ?thesis using a unfolding w by (intro conjI exI [of _ d]) (simp_all add: str_def)
qed

text \<open>
  The claim as written fails on the file \<^verbatim>\<open>a,b\n1,2,3\n\<close>: the frame has three
  columns although the header line has two, and the third cell of the data row stays a cell of
  its own instead of being merged into the last header column.
\<close>

theorem manual_csv_parse_width_counterexample:
  "manual_csv_parse (text_env ragged_text) =
     Inr \<lparr>index_len = 1,
          columns = [(Some (str ''a''), ObjCol [Some (str ''1'')]),
                     (Some (str ''b''), ObjCol [Some (str ''2'')]),
                     (Some [], ObjCol [Some (str ''3'')])]\<rparr> \<and>
   hd (file_lines ragged_text) = str ''a,b'' \<and>
   length (csv_record 44 (hd (file_lines ragged_text))) = 2"
  by (simp add: manual_csv_parse_def ragged_rows manual_table_def pad_rows_def widest_def
      DataFrame_def ragged_lines csv_record_def str_def upt_rec)

subsection \<open>The delimiter of manual tokenization\<close>

lemma delimiter_comma_first: "delimiter line = 59 \<longrightarrow> count_list line 44 < count_list line 59"
  by (auto simp: delimiter_cases Let_def split: if_splits)

lemma delimiter_before_tab:
  "delimiter line = 9 \<longrightarrow> count_list line 44 < count_list line 9 \<and> count_list line 59 < count_list line 9"
  by (auto simp: delimiter_cases Let_def split: if_splits)

lemma delimiter_before_pipe:
  "delimiter line = 124 \<longrightarrow> count_list line 44 < count_list line 124 \<and>
     count_list line 59 < count_list line 124 \<and> count_list line 9 < count_list line 124"
  by (auto simp: delimiter_cases Let_def split: if_splits)

lemma delimiter_is_candidate: "delimiter line \<in> set delimiters"
  by (simp add: delimiter_cases delimiters_def Let_def)

lemma delimiter_is_highest:
  "list_all (\<lambda>d. count_list line d \<le> count_list line (delimiter line)) delimiters"
  by (simp add: delimiter_cases delimiters_def Let_def) linarith

lemma delimiter_none: "list_all (\<lambda>d. count_list line d = 0) delimiters \<longrightarrow> delimiter line = 44"
  by (simp add: delimiter_cases delimiters_def Let_def)

lemma manual_rows_first:
  assumes "read_replace env enc = Inr text" "file_lines text \<noteq> []"
    "csv_reader env (delimiter (py_strip (hd (file_lines text)))) text = Inr rows"
  shows "manual_rows env (enc # rest) = rows"
proof -
  have "take 50 (file_lines text) \<noteq> []" using assms(2) by (cases "file_lines text") auto
  moreover have "hd (map py_strip (take 50 (file_lines text))) = py_strip (hd (file_lines text))"
    using assms(2) by (cases "file_lines text") auto
  ultimately show ?thesis using assms by (simp add: Let_def)
qed

text \<open>
  Claim C10, as the code has it. \<open>manual_csv_parse\<close> counts the candidates in the first
  line of the file after stripping its leading and trailing whitespace (so a tab at either end
  of the line is not counted). The delimiter it selects is a candidate whose count in that
  stripped line is the highest, and every candidate earlier in the order comma, semicolon,
  tab, pipe has a strictly smaller count: of several with the highest count the earliest is
  selected, and a stripped line without any candidate gives the comma. The whole file is then
  tokenized by \<open>csv.reader\<close> with that delimiter.
\<close>

theorem manual_delimiter_choice:
  assumes "read_replace env ''utf-8'' = Inr text" and "file_lines text \<noteq> []"
    and "first_line = py_strip (hd (file_lines text))"
    and "csv_reader env (delimiter first_line) text = Inr rows"
  shows "manual_rows env manual_encodings = rows \<and>
         delimiter first_line \<in> set delimiters \<and>
         list_all (\<lambda>d. count_list first_line d \<le> count_list first_line (delimiter first_line)) delimiters \<and>
         (delimiter first_line = 59 \<longrightarrow> count_list first_line 44 < count_list first_line 59) \<and>
         (delimiter first_line = 9 \<longrightarrow> count_list first_line 44 < count_list first_line 9 \<and>
                                         count_list first_line 59 < count_list first_line 9) \<and>
         (delimiter first_line = 124 \<longrightarrow> count_list first_line 44 < count_list first_line 124 \<and>
                                         count_list first_line 59 < count_list first_line 124 \<and>
                                         count_list first_line 9 < count_list first_line 124) \<and>
         (list_all (\<lambda>d. count_list first_line d = 0) delimiters \<longrightarrow> delimiter first_line = 44)"
proof -
  have "manual_rows env manual_encodings = rows"
    unfolding manual_encodings_def using assms by (intro manual_rows_first) simp_all
  then show ?thesis
    using delimiter_is_candidate [of first_line] delimiter_is_highest [of first_line]
      delimiter_comma_first [of first_line] delimiter_before_tab [of first_line]
      delimiter_before_pipe [of first_line] delimiter_none [of first_line]
    by blast
qed

lemma tab_pipe_lines: "file_lines tab_pipe_text = [str ''a|b'' @ [9], str ''1|2'']"
  by (simp add: tab_pipe_text_def file_lines_def str_def)

lemma tab_pipe_strip: "py_strip (str ''a|b'' @ [9]) = str ''a|b''"
  by (simp add: py_strip_def isspace_def str_def)

lemma tab_pipe_delimiter: "delimiter (str ''a|b'') = 124"
  by (simp add: delimiter_cases str_def)

lemma tab_pipe_rows:
  "csv_reader_lines 124 tab_pipe_text = Inr [[str ''a'', str ''b'' @ [9]], [str ''1'', str ''2'']]"
  by (simp add: csv_reader_lines_def tab_pipe_lines csv_record_def str_def)

lemma tab_pipe_manual_rows:
  "manual_rows (text_env tab_pipe_text) manual_encodings =
     [[str ''a'', str ''b'' @ [9]], [str ''1'', str ''2'']]"
  unfolding manual_encodings_def
  by (rule manual_rows_first [of _ _ tab_pipe_text])
     (simp_all add: text_env_def tab_pipe_lines tab_pipe_strip tab_pipe_delimiter tab_pipe_rows)

theorem manual_delimiter_choice_witness:
  "read_replace (text_env tab_pipe_text) ''utf-8'' = Inr tab_pipe_text \<and>
   file_lines tab_pipe_text \<noteq> [] \<and>
   manual_rows (text_env tab_pipe_text) manual_encodings =
     [[str ''a'', str ''b'' @ [9]], [str ''1'', str ''2'']] \<and>
   delimiter (py_strip (hd (file_lines tab_pipe_text))) = 124"
proof -
  have a: "read_replace (text_env tab_pipe_text) ''utf-8'' = Inr tab_pipe_text"
    by (simp add: text_env_def)
  have b: "file_lines tab_pipe_text \<noteq> []" by (simp add: tab_pipe_lines)
  have c: "str ''a|b'' = py_strip (hd (file_lines tab_pipe_text))"
    by (simp add: tab_pipe_lines tab_pipe_strip)
  have d: "csv_reader (text_env tab_pipe_text) (delimiter (str ''a|b'')) tab_pipe_text
             = Inr [[str ''a'', str ''b'' @ [9]], [str ''1'', str ''2'']]"
    by (simp add: text_env_def tab_pipe_delimiter tab_pipe_rows)
  from manual_delimiter_choice [OF a b c d] a b show ?thesis
    by (simp add: tab_pipe_lines tab_pipe_strip tab_pipe_delimiter)
qed

text \<open>
  The claim as written fails on the file \<^verbatim>\<open>a|b\t\n1|2\n\<close>. Its first line has no
  comma and no semicolon, one tab and one pipe: tab and pipe tie for the highest count and the
  tab is the earlier candidate. The code selects the pipe, because it counts in the stripped
  line, and tokenizes the file with the pipe; tokenizing with the tab would give other rows.
\<close>

theorem manual_delimiter_choice_counterexample:
  "hd (file_lines tab_pipe_text) = str ''a|b'' @ [9] \<and>
   count_list (hd (file_lines tab_pipe_text)) 44 = 0 \<and>
   count_list (hd (file_lines tab_pipe_text)) 59 = 0 \<and>
   count_list (hd (file_lines tab_pipe_text)) 9 = 1 \<and>
   count_list (hd (file_lines tab_pipe_text)) 124 = 1 \<and>
   manual_rows (text_env tab_pipe_text) manual_encodings =
     [[str ''a'', str ''b'' @ [9]], [str ''1'', str ''2'']] \<and>
   csv_reader (text_env tab_pipe_text) 9 tab_pipe_text = Inr [[str ''a|b'', []], [str ''1|2'']] \<and>
   manual_rows (text_env tab_pipe_text) manual_encodings \<noteq> [[str ''a|b'', []], [str ''1|2'']]"
proof -
  have "csv_reader (text_env tab_pipe_text) 9 tab_pipe_text = Inr [[str ''a|b'', []], [str ''1|2'']]"
    by (simp add: text_env_def csv_reader_lines_def tab_pipe_lines csv_record_def str_def)
  moreover have "[[str ''a'', str ''b'' @ [9]], [str ''1'', str ''2'']] \<noteq> [[str ''a|b'', []], [str ''1|2'']]"
    by (simp add: str_def)
  ultimately show ?thesis
    by (simp add: tab_pipe_manual_rows tab_pipe_lines) (simp add: str_def)
qed

subsection \<open>Exhausted tiers\<close>

lemma strategy1_None: "list_all (\<lambda>enc. \<not> accepted1 (pd_read_csv env enc)) encs \<Longrightarrow> strategy1 env encs = None"
  by (induction encs) (auto simp: accepted1_def split: sum.splits)

lemma strategy2_None: "list_all (\<lambda>enc. \<not> accepted2 (pd_read_csv_skip env enc)) encs \<Longrightarrow> strategy2 env encs = None"
  by (induction encs) (auto simp: accepted2_def split: sum.splits)

lemma read_csv_robustly_empty:
  "list_all (\<lambda>r. case r of Inl e \<Rightarrow> False | Inr None \<Rightarrow> True | Inr (Some fr) \<Rightarrow> df_empty fr)
     strategies \<Longrightarrow>
   read_csv_robustly strategies = Inr DataFrame_empty"
  by (induction strategies rule: read_csv_robustly.induct) auto

lemma py_print_accepts: "\<forall>m. con m = None \<Longrightarrow> py_print con m = Inr ()"
  by (simp add: py_print_def)

lemma strategy1_console_accepts:
  assumes "\<forall>m. con m = None"
  shows "strategy1_console con env encs = Inr (strategy1 env encs)"
  by (induction encs)
     (auto simp: attempt1_def and_then_def py_print_accepts [OF assms] split: sum.splits)

lemma strategy2_console_accepts:
  assumes "\<forall>m. con m = None"
  shows "strategy2_console con env encs = Inr (strategy2 env encs)"
  by (induction encs)
     (auto simp: attempt2_def and_then_def py_print_accepts [OF assms] split: sum.splits)

text \<open>With a console that takes every message the function is its four tiers in turn.\<close>

lemma read_csv_with_fallbacks_accepts:
  assumes "\<forall>m. con m = None"
  shows "read_csv_with_fallbacks con env =
     (case strategy1 env encodings of
        Some fr \<Rightarrow> Inr fr
      | None \<Rightarrow>
          (case strategy2 env encodings of
             Some fr \<Rightarrow> Inr fr
           | None \<Rightarrow>
               (case manual_csv_parse env of
                  Inl e \<Rightarrow> Inl e
                | Inr fr \<Rightarrow>
                    if \<not> df_empty fr then Inr fr
                    else (case text_based_csv_parse con env of
                            Inl e \<Rightarrow> Inl e
                          | Inr fr' \<Rightarrow> if \<not> df_empty fr' then Inr fr' else Inr DataFrame_empty))))"
  by (simp add: read_csv_with_fallbacks_def and_then_def py_print_accepts [OF assms]
      strategy1_console_accepts [OF assms] strategy2_console_accepts [OF assms]
      split: option.splits sum.splits)

lemma manual_csv_parse_returns:
  assumes rows: "manual_all_rows env = Inr rows" and more: "length rows > 1"
  shows "\<exists>d. manual_csv_parse env = Inr d"
proof -
  from more have pne: "pad_rows rows \<noteq> []" by (auto simp: pad_rows_eq)
  have lc: "length (hd (pad_rows rows)) = widest rows"
    using pne by (simp add: pad_rows_length)
  have ld: "\<forall>r\<in>set (tl (pad_rows rows)). length r = length (hd (pad_rows rows))"
  proof
    fix r assume "r \<in> set (tl (pad_rows rows))"
    then have "r \<in> set (pad_rows rows)" using pne by (auto dest: list.set_sel(2))
    then show "length r = length (hd (pad_rows rows))" using lc by (simp add: pad_rows_length)
  qed
  have "manual_table rows = Some (hd (pad_rows rows), tl (pad_rows rows))"
    using more by (simp add: manual_table_def)
  then show ?thesis
    using rows DataFrame_rect [OF ld] by (simp add: manual_csv_parse_def)
qed

lemma manual_csv_parse_raises: "manual_csv_parse env = Inl e \<Longrightarrow> read_ignore env = Inl e"
proof -
  assume a: "manual_csv_parse env = Inl e"
  have "manual_all_rows env = Inl e"
  proof (cases "manual_all_rows env")
    case (Inl e') with a show ?thesis by (simp add: manual_csv_parse_def)
  next
    case (Inr rows)
    show ?thesis
    proof (cases "length rows > 1")
      case True
      from manual_csv_parse_returns [OF Inr True] a show ?thesis by auto
    next
      case False
      with Inr a show ?thesis by (simp add: manual_csv_parse_def manual_table_def)
    qed
  qed
  then show ?thesis
    by (auto simp: manual_all_rows_def Let_def split: if_splits sum.splits)
qed

text \<open>
  Claim C1, as the code has it. When every tier of \<open>read_csv_with_fallbacks\<close> is exhausted
  and the console takes the messages of the function, the function returns the empty frame
  \<open>pd.DataFrame()\<close> to its caller; it does not raise \<open>UnreadableFileError\<close>. Likewise
  \<open>_read_csv_robustly\<close> returns the empty frame when each of its strategies returned \<open>None\<close>
  or an empty frame.
\<close>

theorem exhausted_returns_empty_frame:
  "((\<forall>m. con m = None) \<and> tiers_exhausted con env \<longrightarrow>
      read_csv_with_fallbacks con env = Inr DataFrame_empty) \<and>
   (list_all (\<lambda>r. case r of Inl e \<Rightarrow> False | Inr None \<Rightarrow> True | Inr (Some fr) \<Rightarrow> df_empty fr)
      strategies \<longrightarrow>
      read_csv_robustly strategies = Inr DataFrame_empty)"
proof (intro conjI impI)
  assume a: "(\<forall>m. con m = None) \<and> tiers_exhausted con env"
  then have "strategy1 env encodings = None" "strategy2 env encodings = None"
    "case manual_csv_parse env of Inl e \<Rightarrow> False | Inr fr \<Rightarrow> df_empty fr"
    "case text_based_csv_parse con env of Inl e \<Rightarrow> False | Inr fr \<Rightarrow> df_empty fr"
    by (simp_all add: tiers_exhausted_def strategy1_None strategy2_None)
  moreover from a have "\<forall>m. con m = None" by simp
  ultimately show "read_csv_with_fallbacks con env = Inr DataFrame_empty"
    by (auto simp: read_csv_with_fallbacks_accepts split: sum.splits)
next
  assume "list_all (\<lambda>r. case r of Inl e \<Rightarrow> False | Inr None \<Rightarrow> True | Inr (Some fr) \<Rightarrow> df_empty fr)
      strategies"
  then show "read_csv_robustly strategies = Inr DataFrame_empty" by (rule read_csv_robustly_empty)
qed

lemma empty_file_manual: "manual_csv_parse empty_file_env = Inr DataFrame_empty"
  by (simp add: manual_csv_parse_def manual_all_rows_def manual_encodings_def empty_file_env_def
      file_lines_def manual_table_def)

lemma empty_file_text: "text_based_csv_parse con empty_file_env = Inr DataFrame_empty"
  by (simp add: text_based_csv_parse_def text_based_try_def empty_file_env_def
      clean_csv_content_def replacements_def py_strip_def)

lemma empty_file_exhausted: "tiers_exhausted con empty_file_env"
  by (simp add: tiers_exhausted_def empty_file_manual empty_file_text)
     (simp add: empty_file_env_def accepted1_def accepted2_def encodings_def DataFrame_empty_def
      df_empty_def)

lemma empty_file_resolved: "read_csv_with_fallbacks utf8_console empty_file_env = Inr DataFrame_empty"
proof -
  have q: "\<forall>m. utf8_console m = None" by (simp add: utf8_console_def)
  have "strategy1 empty_file_env encodings = None" "strategy2 empty_file_env encodings = None"
    using empty_file_exhausted [of utf8_console]
    by (simp_all add: tiers_exhausted_def strategy1_None strategy2_None)
  then show ?thesis
    by (simp add: read_csv_with_fallbacks_accepts [OF q] empty_file_manual empty_file_text
        df_empty_def DataFrame_empty_def)
qed

lemma unreadable_raises: "read_csv_with_fallbacks utf8_console unreadable_env = Inl OSError"
proof -
  have q: "\<forall>m. utf8_console m = None" by (simp add: utf8_console_def)
  show ?thesis
    by (simp add: read_csv_with_fallbacks_accepts [OF q] encodings_def unreadable_env_def
        manual_csv_parse_def manual_all_rows_def manual_encodings_def)
qed

theorem exhausted_returns_empty_frame_witness:
  "(\<forall>m. utf8_console m = None) \<and>
   tiers_exhausted utf8_console empty_file_env \<and>
   read_csv_with_fallbacks utf8_console empty_file_env = Inr DataFrame_empty \<and>
   read_csv_robustly [Inr None, Inr (Some DataFrame_empty), Inr None] = Inr DataFrame_empty"
  using exhausted_returns_empty_frame
      [of utf8_console empty_file_env "[Inr None, Inr (Some DataFrame_empty), Inr None]"]
    empty_file_exhausted [of utf8_console]
  by (simp add: df_empty_def DataFrame_empty_def utf8_console_def)

text \<open>
  The claim as written fails on the empty file: every tier is exhausted, and the resolver
  returns the empty frame instead of raising \<open>UnreadableFileError\<close>.
\<close>

theorem exhausted_returns_empty_frame_counterexample:
  "tiers_exhausted utf8_console empty_file_env \<and>
   read_csv_with_fallbacks utf8_console empty_file_env \<noteq> Inl UnreadableFileError \<and>
   (\<exists>fr. read_csv_with_fallbacks utf8_console empty_file_env = Inr fr \<and> df_empty fr)"
  using empty_file_resolved empty_file_exhausted [of utf8_console]
  by (simp add: df_empty_def DataFrame_empty_def)

text \<open>
  On a console that cannot encode the marks the function does not reach its \<open>return\<close>. On the
  empty file pandas raises in the first loop and the \<open>print\<close> of the handler raises
  \<open>UnicodeEncodeError\<close>; on the file that is only a header nothing raises before the last
  \<open>print\<close>, the one in front of \<open>return pd.DataFrame()\<close>, and that one does.
\<close>

lemma empty_file_ascii_console:
  "read_csv_with_fallbacks ascii_console empty_file_env = Inl UnicodeEncodeError"
  by (simp add: read_csv_with_fallbacks_def and_then_def py_print_def ascii_console_def
      encodings_def attempt1_def empty_file_env_def)

lemma header_only_tiers:
  "strategy1 header_only_env encodings = None"
  "strategy2 header_only_env encodings = None"
  "manual_csv_parse header_only_env = Inr DataFrame_empty"
  "text_based_csv_parse con header_only_env = Inr header_only_frame"
  by (simp_all add: encodings_def header_only_env_def header_only_frame_def df_empty_def
      manual_csv_parse_def manual_all_rows_def manual_encodings_def manual_table_def
      file_lines_def csv_reader_lines_def py_strip_def isspace_def str_def
      text_based_csv_parse_def text_based_try_def)

lemma header_only_utf8_console:
  "read_csv_with_fallbacks utf8_console header_only_env = Inr DataFrame_empty"
proof -
  have q: "\<forall>m. utf8_console m = None" by (simp add: utf8_console_def)
  show ?thesis
    by (simp add: read_csv_with_fallbacks_accepts [OF q] header_only_tiers)
       (simp add: df_empty_def DataFrame_empty_def header_only_frame_def)
qed

lemma header_only_ascii_console:
  "read_csv_with_fallbacks ascii_console header_only_env = Inl UnicodeEncodeError"
proof -
  have s1: "strategy1_console ascii_console header_only_env encodings = Inr None"
    by (simp add: encodings_def attempt1_def and_then_def py_print_def ascii_console_def
        header_only_env_def header_only_frame_def df_empty_def)
  have s2: "strategy2_console ascii_console header_only_env encodings = Inr None"
    by (simp add: encodings_def attempt2_def and_then_def py_print_def ascii_console_def
        header_only_env_def header_only_frame_def df_empty_def)
  have t: "text_based_csv_parse ascii_console header_only_env = Inr header_only_frame"
    by (rule header_only_tiers)
  have e: "df_empty header_only_frame" by (simp add: df_empty_def header_only_frame_def)
  show ?thesis
    by (simp add: read_csv_with_fallbacks_def and_then_def s1 s2 header_only_tiers(3) t e
        py_print_def ascii_console_def DataFrame_empty_def df_empty_def)
qed

subsection \<open>The encodings of the structured parse\<close>

lemma strategy1_find:
  "strategy1 env encs =
     (case find (\<lambda>enc. accepted1 (pd_read_csv env enc)) encs of
        None \<Rightarrow> None
      | Some enc \<Rightarrow> (case pd_read_csv env enc of Inl e \<Rightarrow> None | Inr fr \<Rightarrow> Some fr))"
  by (induction encs) (auto simp: accepted1_def split: sum.splits)

lemma strategy1_Some_iff:
  "strategy1 env encs = Some fr \<longleftrightarrow>
     (\<exists>i<length encs. pd_read_csv env (encs ! i) = Inr fr \<and> accepted1 (Inr fr) \<and>
          (\<forall>j<i. \<not> accepted1 (pd_read_csv env (encs ! j))))"
proof
  assume "strategy1 env encs = Some fr"
  then obtain enc where f: "find (\<lambda>enc. accepted1 (pd_read_csv env enc)) encs = Some enc"
    and r: "pd_read_csv env enc = Inr fr"
    by (auto simp: strategy1_find split: option.splits sum.splits)
  from f obtain i where "i < length encs" "accepted1 (pd_read_csv env (encs ! i))" "enc = encs ! i"
    "\<forall>j<i. \<not> accepted1 (pd_read_csv env (encs ! j))"
    unfolding find_Some_iff by blast
  with r show "\<exists>i<length encs. pd_read_csv env (encs ! i) = Inr fr \<and> accepted1 (Inr fr) \<and>
          (\<forall>j<i. \<not> accepted1 (pd_read_csv env (encs ! j)))"
    by (intro exI [of _ i]) simp
next
  assume "\<exists>i<length encs. pd_read_csv env (encs ! i) = Inr fr \<and> accepted1 (Inr fr) \<and>
          (\<forall>j<i. \<not> accepted1 (pd_read_csv env (encs ! j)))"
  then obtain i where i: "i < length encs" "pd_read_csv env (encs ! i) = Inr fr" "accepted1 (Inr fr)"
    "\<forall>j<i. \<not> accepted1 (pd_read_csv env (encs ! j))" by blast
  then have "find (\<lambda>enc. accepted1 (pd_read_csv env enc)) encs = Some (encs ! i)"
    unfolding find_Some_iff by (intro exI [of _ i]) simp
  with i show "strategy1 env encs = Some fr" by (simp add: strategy1_find)
qed

text \<open>
  Claim C4, as the code has it. The structured-parse tier of \<open>read_csv_with_fallbacks\<close>
  tries only the fixed list UTF-8, Latin-1, CP1252, ISO-8859-1, UTF-16, ASCII, in that order,
  and returns the first frame that is not empty and has more than one column: a frame is its
  result exactly when some encoding of the list gives it and passes that test while every
  earlier encoding of the list raised or failed it. The detected encoding (accepted when the
  confidence over the first 100,000 bytes is above 0.7, UTF-8 otherwise) is computed by
  \<open>detect_file_encoding\<close> and is no input of the tier.
\<close>

theorem structured_parse_fixed_list:
  "(strategy1 env encodings = Some fr \<longleftrightarrow>
      (\<exists>i<length encodings. pd_read_csv env (encodings ! i) = Inr fr \<and>
           \<not> df_empty fr \<and> length (columns fr) > 1 \<and>
           (\<forall>j<i. \<not> accepted1 (pd_read_csv env (encodings ! j))))) \<and>
   (strategy1 env encodings = Some fr \<longrightarrow> read_csv_with_fallbacks utf8_console env = Inr fr) \<and>
   encodings = [''utf-8'', ''latin1'', ''cp1252'', ''iso-8859-1'', ''utf-16'', ''ascii''] \<and>
   (chardet_detect (take 100000 bytes) = Inr result \<longrightarrow>
      detect_file_encoding (Inr bytes) chardet_detect =
        (if confidence result > 7 / 10 then encoding result else Some ''utf-8''))"
proof -
  have "strategy1 env encodings = Some fr \<longleftrightarrow>
      (\<exists>i<length encodings. pd_read_csv env (encodings ! i) = Inr fr \<and>
           \<not> df_empty fr \<and> length (columns fr) > 1 \<and>
           (\<forall>j<i. \<not> accepted1 (pd_read_csv env (encodings ! j))))"
    unfolding strategy1_Some_iff by (simp add: accepted1_def)
  moreover have "strategy1 env encodings = Some fr \<longrightarrow> read_csv_with_fallbacks utf8_console env = Inr fr"
    by (simp add: read_csv_with_fallbacks_accepts utf8_console_def)
  moreover have "encodings = [''utf-8'', ''latin1'', ''cp1252'', ''iso-8859-1'', ''utf-16'', ''ascii'']"
    by (simp add: encodings_def)
  moreover have "chardet_detect (take 100000 bytes) = Inr result \<longrightarrow>
      detect_file_encoding (Inr bytes) chardet_detect =
        (if confidence result > 7 / 10 then encoding result else Some ''utf-8'')"
    by (simp add: detect_file_encoding_def)
  ultimately show ?thesis by blast
qed

lemma euro_strategy1: "strategy1 euro_env encodings = Some (euro_frame 128)"
  by (simp add: encodings_def euro_env_def euro_frame_def df_empty_def)

lemma euro_detect: "detect_file_encoding (Inr euro_bytes) euro_chardet = Some ''Windows-1252''"
  by (simp add: detect_file_encoding_def euro_chardet_def)

theorem structured_parse_fixed_list_witness:
  "strategy1 euro_env encodings = Some (euro_frame 128) \<and>
   pd_read_csv euro_env (encodings ! 1) = Inr (euro_frame 128) \<and>
   \<not> accepted1 (pd_read_csv euro_env (encodings ! 0)) \<and>
   read_csv_with_fallbacks utf8_console euro_env = Inr (euro_frame 128) \<and>
   euro_chardet (take 100000 euro_bytes) = Inr \<lparr>encoding = Some ''Windows-1252'', confidence = 73 / 100\<rparr> \<and>
   detect_file_encoding (Inr euro_bytes) euro_chardet = Some ''Windows-1252''"
  using structured_parse_fixed_list [of euro_env "euro_frame 128" euro_chardet euro_bytes
      "\<lparr>encoding = Some ''Windows-1252'', confidence = 73 / 100\<rparr>"]
    euro_strategy1
  by (simp add: euro_chardet_def) (simp add: encodings_def euro_env_def accepted1_def)

text \<open>
  The claim as written fails on the Windows-1252 file with a euro sign. The detected
  encoding is Windows-1252 (confidence 0.73, above 0.7) and the parse under it is accepted, so
  a tier that tried the detected encoding first would return the frame with U+20AC. The code
  returns the Latin-1 frame with U+0080: it never tries the detected encoding first.
\<close>

theorem structured_parse_fixed_list_counterexample:
  "detect_file_encoding (Inr euro_bytes) euro_chardet = Some ''Windows-1252'' \<and>
   accepted1 (pd_read_csv euro_env ''Windows-1252'') \<and>
   strategy1_detected_first euro_env ''Windows-1252'' = Some (euro_frame 8364) \<and>
   strategy1 euro_env encodings = Some (euro_frame 128) \<and>
   strategy1 euro_env encodings \<noteq> strategy1_detected_first euro_env ''Windows-1252''"
  by (simp add: euro_detect euro_strategy1 strategy1_detected_first_def)
     (simp add: euro_env_def accepted1_def euro_frame_def df_empty_def)

subsection \<open>Reconciling data lines with the header\<close>

lemma py_split_free: "d \<notin> set x \<Longrightarrow> py_split d x = [x]"
  by (induction x) auto

lemma length_py_split: "length (py_split d s) = Suc (count_list s d)"
proof (induction s)
  case Nil then show ?case by simp
next
  case (Cons c cs)
  have "py_split d cs \<noteq> []" by (rule py_split_not_Nil)
  then have "length (tl (py_split d cs)) = count_list cs d" using Cons by (cases "py_split d cs") auto
  with Cons show ?case by simp
qed

lemma py_split_append: "py_split d (a @ d # b) = py_split d a @ py_split d b"
proof (induction a)
  case Nil then show ?case by simp
next
  case (Cons c a)
  have ne: "py_split d a \<noteq> []" by (rule py_split_not_Nil)
  show ?case
  proof (cases "c = d")
    case True with Cons show ?thesis by simp
  next
    case False
    with Cons ne show ?thesis by (cases "py_split d a") auto
  qed
qed

lemma py_split_pad: "py_split d (s @ replicate k d) = py_split d s @ replicate k []"
proof (induction k arbitrary: s)
  case 0 then show ?case by simp
next
  case (Suc k)
  have "py_split d (s @ replicate (Suc k) d) = py_split d (s @ d # replicate k d)" by simp
  also have "\<dots> = py_split d s @ py_split d (replicate k d)" by (rule py_split_append)
  also have "py_split d (replicate k d) = py_split d ([] @ replicate k d)" by simp
  also have "\<dots> = py_split d [] @ replicate k []" by (rule Suc.IH)
  finally show ?case by (simp add: replicate_append_same)
qed

lemma py_split_parts_free: "x \<in> set (py_split d s) \<Longrightarrow> d \<notin> set x"
proof (induction s arbitrary: x)
  case Nil then show ?case by simp
next
  case (Cons c cs)
  have ne: "py_split d cs \<noteq> []" by (rule py_split_not_Nil)
  show ?case
  proof (cases "c = d")
    case True with Cons show ?thesis by auto
  next
    case False
    from ne obtain h t where ht: "py_split d cs = h # t" by (cases "py_split d cs") auto
    with Cons.prems False have "x = c # h \<or> x \<in> set t" by simp
    then show ?thesis
    proof
      assume "x = c # h"
      moreover have "d \<notin> set h" using Cons.IH [of h] ht by simp
      ultimately show ?thesis using False by simp
    next
      assume "x \<in> set t"
      then show ?thesis using Cons.IH [of x] ht by simp
    qed
  qed
qed

lemma py_split_parts_subset: "x \<in> set (py_split d s) \<Longrightarrow> set x \<subseteq> set s"
proof (induction s arbitrary: x)
  case Nil then show ?case by simp
next
  case (Cons c cs)
  have ne: "py_split d cs \<noteq> []" by (rule py_split_not_Nil)
  from ne obtain h t where ht: "py_split d cs = h # t" by (cases "py_split d cs") auto
  show ?case
  proof (cases "c = d")
    case True with Cons show ?thesis by auto
  next
    case False
    with Cons.prems ht have "x = c # h \<or> x \<in> set t" by simp
    then show ?thesis
    proof
      assume "x = c # h"
      moreover have "set h \<subseteq> set cs" using Cons.IH [of h] ht by simp
      ultimately show ?thesis by auto
    next
      assume "x \<in> set t"
      then have "set x \<subseteq> set cs" using Cons.IH [of x] ht by simp
      then show ?thesis by auto
    qed
  qed
qed

lemma py_split_join:
  "xs \<noteq> [] \<Longrightarrow> \<forall>x\<in>set xs. d \<notin> set x \<Longrightarrow> py_split d (py_join [d] xs) = xs"
proof (induction "[d]" xs rule: py_join.induct)
  case 1 then show ?case by simp
next
  case (2 x) then show ?case by (simp add: py_split_free)
next
  case (3 x y ys)
  have "py_split d (py_join [d] (x # y # ys)) = py_split d (x @ d # py_join [d] (y # ys))" by simp
  also have "\<dots> = py_split d x @ py_split d (py_join [d] (y # ys))" by (rule py_split_append)
  finally show ?case using 3 by (simp add: py_split_free)
qed

lemma py_join_subset: "set (py_join sep xs) \<subseteq> set sep \<union> (\<Union>x\<in>set xs. set x)"
  by (induction sep xs rule: py_join.induct) auto

lemma csv_parse_plain:
  assumes "34 \<notin> set s" "d \<noteq> 34" "st = START_FIELD \<or> st = IN_FIELD"
  shows "csv_parse d st f s = (f @ hd (py_split d s)) # tl (py_split d s)"
  using assms
proof (induction s arbitrary: f st)
  case Nil then show ?case by simp
next
  case (Cons c cs)
  have ne: "py_split d cs \<noteq> []" by (rule py_split_not_Nil)
  from Cons.prems have c: "c \<noteq> 34" and cs: "34 \<notin> set cs" by auto
  show ?case
  proof (cases "c = d")
    case True
    have "csv_parse d st f (c # cs) = f # csv_parse d START_FIELD [] cs"
      using Cons.prems(3) True c by auto
    also have "csv_parse d START_FIELD [] cs = ([] @ hd (py_split d cs)) # tl (py_split d cs)"
      using cs Cons.prems(2) by (intro Cons.IH) simp_all
    finally show ?thesis using True ne by simp
  next
    case False
    have "csv_parse d st f (c # cs) = csv_parse d IN_FIELD (f @ [c]) cs"
      using Cons.prems(3) False c by auto
    also have "\<dots> = ((f @ [c]) @ hd (py_split d cs)) # tl (py_split d cs)"
      using cs Cons.prems(2) by (intro Cons.IH) simp_all
    finally show ?thesis using False by simp
  qed
qed

lemma csv_parse_plain_delim:
  assumes "34 \<notin> set p" "d \<noteq> 34" "st = START_FIELD \<or> st = IN_FIELD"
  shows "csv_parse d st f (p @ d # rest) =
           ((f @ hd (py_split d p)) # tl (py_split d p)) @ csv_parse d START_FIELD [] rest"
  using assms
proof (induction p arbitrary: f st)
  case Nil then show ?case by auto
next
  case (Cons c cs)
  have ne: "py_split d cs \<noteq> []" by (rule py_split_not_Nil)
  from Cons.prems have c: "c \<noteq> 34" and cs: "34 \<notin> set cs" by auto
  show ?case
  proof (cases "c = d")
    case True
    have "csv_parse d st f ((c # cs) @ d # rest) = f # csv_parse d START_FIELD [] (cs @ d # rest)"
      using Cons.prems(3) True c by auto
    also have "csv_parse d START_FIELD [] (cs @ d # rest) =
        (([] @ hd (py_split d cs)) # tl (py_split d cs)) @ csv_parse d START_FIELD [] rest"
      using cs Cons.prems(2) by (intro Cons.IH) simp_all
    finally show ?thesis using True ne by simp
  next
    case False
    have "csv_parse d st f ((c # cs) @ d # rest) = csv_parse d IN_FIELD (f @ [c]) (cs @ d # rest)"
      using Cons.prems(3) False c by auto
    also have "\<dots> = (((f @ [c]) @ hd (py_split d cs)) # tl (py_split d cs)) @ csv_parse d START_FIELD [] rest"
      using cs Cons.prems(2) by (intro Cons.IH) simp_all
    finally show ?thesis using False by simp
  qed
qed

lemma csv_parse_quoted_end: "34 \<notin> set q \<Longrightarrow> csv_parse d IN_QUOTED_FIELD f (q @ [34]) = [f @ q]"
  by (induction q arbitrary: f) auto

text \<open>
  Claim C5, as the code has it. The pass counts commas, quoted or not. For a header with
  \<open>comma_count \<ge> 1\<close> commas and a data line without double quotes, the rewritten line
  read by a quote-aware reader has exactly \<open>comma_count + 1\<close> fields: a line with fewer
  commas keeps its fields and gets empty trailing fields, a line with more keeps its first
  \<open>comma_count\<close> fields and has all the others joined, commas included, into one quoted
  trailing field.
\<close>

theorem reconcile_line_fields:
  assumes q: "34 \<notin> set line" and n: "comma_count \<ge> 1"
  shows "csv_record 44 (reconcile_line comma_count line) =
           (let parts = py_split 44 line in
            if length parts \<le> comma_count + 1
            then parts @ replicate (comma_count + 1 - length parts) []
            else take comma_count parts @ [py_join [44] (drop comma_count parts)]) \<and>
         length (csv_record 44 (reconcile_line comma_count line)) = comma_count + 1"
proof -
  have fields: "csv_record 44 (reconcile_line comma_count line) =
           (let parts = py_split 44 line in
            if length parts \<le> comma_count + 1
            then parts @ replicate (comma_count + 1 - length parts) []
            else take comma_count parts @ [py_join [44] (drop comma_count parts)])"
  proof -
  define parts where "parts = py_split 44 line"
  define m where "m = count_list line 44"
  have len: "length parts = Suc m" by (simp add: parts_def m_def length_py_split)
  have pne: "parts \<noteq> []" by (simp add: parts_def py_split_not_Nil)
  have plain: "csv_parse 44 START_FIELD [] s = py_split 44 s" if "34 \<notin> set s" for s
    using csv_parse_plain [of s 44 START_FIELD "[]"] that py_split_not_Nil [of 44 s] by simp
  consider (short) "m < comma_count" | (same) "m = comma_count" | (long) "m > comma_count"
    by linarith
  then show ?thesis
  proof cases
    case short
    then have r: "reconcile_line comma_count line = line @ replicate (comma_count - m) 44"
      by (simp add: reconcile_line_def m_def Let_def)
    have ne: "line @ replicate (comma_count - m) 44 \<noteq> []" using short by simp
    have qf: "34 \<notin> set (line @ replicate (comma_count - m) 44)" using q by auto
    have "csv_record 44 (reconcile_line comma_count line) =
            py_split 44 (line @ replicate (comma_count - m) 44)"
      unfolding r csv_record_def using ne plain [OF qf] by simp
    also have "\<dots> = parts @ replicate (comma_count - m) []"
      by (simp add: py_split_pad parts_def)
    finally show ?thesis using short len by (simp add: parts_def [symmetric] Let_def)
  next
    case same
    then have r: "reconcile_line comma_count line = line"
      by (simp add: reconcile_line_def m_def Let_def)
    have "line \<noteq> []" using same n by (auto simp: m_def)
    then have "csv_record 44 (reconcile_line comma_count line) = parts"
      unfolding r csv_record_def using plain [OF q] by (simp add: parts_def)
    then show ?thesis using same len by (simp add: parts_def [symmetric] Let_def)
  next
    case long
    define p where "p = py_join [44] (take comma_count parts)"
    define t where "t = py_join [44] (drop comma_count parts)"
    have r: "reconcile_line comma_count line = p @ 44 # (34 # t @ [34])"
      using long len by (simp add: reconcile_line_def m_def [symmetric] parts_def [symmetric] Let_def p_def t_def)
    have sub: "\<And>x. x \<in> set parts \<Longrightarrow> set x \<subseteq> set line"
      unfolding parts_def by (rule py_split_parts_subset)
    have pq: "34 \<notin> set p"
    proof
      assume "34 \<in> set p"
      then have "34 \<in> set [44::nat] \<union> (\<Union>x\<in>set (take comma_count parts). set x)"
        using py_join_subset [of "[44]" "take comma_count parts"] unfolding p_def by blast
      then obtain x where "x \<in> set (take comma_count parts)" "34 \<in> set x" by auto
      then show False using sub [of x] q by (auto dest: in_set_takeD)
    qed
    have tq: "34 \<notin> set t"
    proof
      assume "34 \<in> set t"
      then have "34 \<in> set [44::nat] \<union> (\<Union>x\<in>set (drop comma_count parts). set x)"
        using py_join_subset [of "[44]" "drop comma_count parts"] unfolding t_def by blast
      then obtain x where "x \<in> set (drop comma_count parts)" "34 \<in> set x" by auto
      then show False using sub [of x] q by (auto dest: in_set_dropD)
    qed
    have tk: "take comma_count parts \<noteq> []" using n pne by (cases parts) (auto simp: take_Suc_conv_app_nth)
    have fr: "\<forall>x\<in>set (take comma_count parts). 44 \<notin> set x"
      using py_split_parts_free [of _ 44 line] by (auto simp: parts_def dest: in_set_takeD)
    have sp: "py_split 44 p = take comma_count parts"
      unfolding p_def using tk fr by (rule py_split_join)
    have "csv_record 44 (reconcile_line comma_count line) =
            csv_parse 44 START_FIELD [] (p @ 44 # (34 # t @ [34]))"
      by (simp add: r csv_record_def)
    also have "\<dots> = (([] @ hd (py_split 44 p)) # tl (py_split 44 p)) @
                      csv_parse 44 START_FIELD [] (34 # t @ [34])"
      using pq by (intro csv_parse_plain_delim) simp_all
    also have "\<dots> = py_split 44 p @ [t]"
      using py_split_not_Nil [of 44 p] csv_parse_quoted_end [OF tq, of 44 "[]"] by simp
    finally show ?thesis using long len sp by (simp add: parts_def [symmetric] Let_def t_def)
  qed
qed
  then show ?thesis by (auto simp: Let_def)
qed

lemma scenario_B_content:
  "clean_csv_content (str ''a,b,c'' @ [10] @ str ''1,2,3,4,5'' @ [10]) =
     str ''a,b,c'' @ [10] @ str ''1,2,'' @ [34] @ str ''3,4,5'' @ [34]"
  by (simp add: clean_csv_content_def replacements_def str_def py_strip_def isspace_def
      reconcile_line_def Let_def)

theorem reconcile_line_fields_witness:
  "34 \<notin> set (str ''1,2,3,4,5'') \<and> (2::nat) \<ge> 1 \<and>
   count_list (str ''a,b,c'') 44 = 2 \<and>
   csv_record 44 (reconcile_line 2 (str ''1,2,3,4,5'')) = [str ''1'', str ''2'', str ''3,4,5''] \<and>
   csv_record 44 (reconcile_line 2 (str ''1'')) = [str ''1'', [], []] \<and>
   clean_csv_content (str ''a,b,c'' @ [10] @ str ''1,2,3,4,5'' @ [10]) =
     str ''a,b,c'' @ [10] @ str ''1,2,'' @ [34] @ str ''3,4,5'' @ [34] \<and>
   csv_reader_lines 44 (str ''a,b,c'' @ [10] @ str ''1,2,'' @ [34] @ str ''3,4,5'' @ [34]) =
     Inr [[str ''a'', str ''b'', str ''c''], [str ''1'', str ''2'', str ''3,4,5'']]"
proof -
  have a: "34 \<notin> set (str ''1,2,3,4,5'')" and b: "34 \<notin> set (str ''1'')" by (simp_all add: str_def)
  have c: "(2::nat) \<ge> 1" by simp
  have "csv_record 44 (reconcile_line 2 (str ''1,2,3,4,5'')) = [str ''1'', str ''2'', str ''3,4,5'']"
    using reconcile_line_fields [OF a c] by (simp add: str_def)
  moreover have "csv_record 44 (reconcile_line 2 (str ''1'')) = [str ''1'', [], []]"
    using reconcile_line_fields [OF b c] by (simp add: str_def numeral_2_eq_2)
  moreover have "csv_reader_lines 44 (str ''a,b,c'' @ [10] @ str ''1,2,'' @ [34] @ str ''3,4,5'' @ [34]) =
     Inr [[str ''a'', str ''b'', str ''c''], [str ''1'', str ''2'', str ''3,4,5'']]"
    by (simp add: csv_reader_lines_def file_lines_def csv_record_def str_def)
  ultimately show ?thesis using a scenario_B_content by (simp add: str_def)
qed

text \<open>
  The claim as written fails on a data line with quotes. Under the header \<^verbatim>\<open>a,b,c\<close> the
  line \<^verbatim>\<open>1,"x,y",3\<close> is a record of three fields; the pass counts three commas in it and
  rewrites it to \<^verbatim>\<open>1,"x,"y",3"\<close>, whose fields are \<^verbatim>\<open>1\<close>, \<^verbatim>\<open>x,y"\<close> and
  \<^verbatim>\<open>3"\<close>: the trailing field is not the joined excess \<^verbatim>\<open>y",3\<close>.
\<close>

theorem reconcile_line_fields_counterexample:
  "count_list (str ''a,b,c'') 44 = 2 \<and>
   csv_record 44 quoted_line = [str ''1'', str ''x,y'', str ''3''] \<and>
   reconcile_line 2 quoted_line = str ''1,'' @ [34] @ str ''x,'' @ [34] @ str ''y'' @ [34] @ str '',3'' @ [34] \<and>
   csv_record 44 (reconcile_line 2 quoted_line) = [str ''1'', str ''x,y'' @ [34], str ''3'' @ [34]] \<and>
   last (csv_record 44 (reconcile_line 2 quoted_line)) \<noteq> py_join [44] (drop 2 (py_split 44 quoted_line))"
  by (simp add: quoted_line_def reconcile_line_def csv_record_def str_def Let_def)

text \<open>
  A header without a comma: a data line with commas gets an empty field in front of the quoted
  one, so it has one field more than the header.
\<close>

lemma reconcile_line_no_header_comma:
  "reconcile_line 0 (str ''a,b'') = [44, 34] @ str ''a,b'' @ [34] \<and>
   csv_record 44 (reconcile_line 0 (str ''a,b'')) = [[], str ''a,b'']"
  by (simp add: reconcile_line_def csv_record_def str_def Let_def)

subsection \<open>The empty table\<close>



subsection \<open>Sparse columns and the threshold\<close>

lemma cols_to_drop_mono:
  assumes "t1 \<le> t2"
  shows "set (cols_to_drop t2 d) \<subseteq> set (cols_to_drop t1 d)"
  using assms by (auto simp: cols_to_drop_def exceeds_def split: option.splits)

lemma columns_drop_sparse:
  "columns (drop_sparse_columns t d) = filter (\<lambda>(l, s). l \<notin> set (cols_to_drop t d)) (columns d)"
proof (cases "cols_to_drop t d = []")
  case True then show ?thesis by (simp add: drop_sparse_columns_def)
next
  case False then show ?thesis by (simp add: drop_sparse_columns_def drop_columns_def)
qed

lemma filter_length_mono:
  "(\<And>x. x \<in> set xs \<Longrightarrow> P x \<Longrightarrow> Q x) \<Longrightarrow> length (filter P xs) \<le> length (filter Q xs)"
  by (induction xs) auto

lemma dropped_positions:
  assumes i: "i < length (columns d)"
  shows "columns d ! i \<in> set (dropped t d) \<longleftrightarrow>
         (\<exists>j<length (columns d). fst (columns d ! j) = fst (columns d ! i) \<and>
              exceeds (missing_percent d (snd (columns d ! j))) t)"
proof -
  have "fst (columns d ! i) \<in> set (cols_to_drop t d) \<longleftrightarrow>
        (\<exists>j<length (columns d). fst (columns d ! j) = fst (columns d ! i) \<and>
                exceeds (missing_percent d (snd (columns d ! j))) t)"
  proof
    assume "fst (columns d ! i) \<in> set (cols_to_drop t d)"
    then obtain c where c: "c \<in> set (columns d)" "exceeds (missing_percent d (snd c)) t"
      "fst c = fst (columns d ! i)"
      by (auto simp: cols_to_drop_def case_prod_beta)
    from c(1) obtain j where "j < length (columns d)" "columns d ! j = c"
      by (auto simp: in_set_conv_nth)
    with c show "\<exists>j<length (columns d). fst (columns d ! j) = fst (columns d ! i) \<and>
                exceeds (missing_percent d (snd (columns d ! j))) t" by auto
  next
    assume "\<exists>j<length (columns d). fst (columns d ! j) = fst (columns d ! i) \<and>
                exceeds (missing_percent d (snd (columns d ! j))) t"
    then obtain j where j: "j < length (columns d)" "fst (columns d ! j) = fst (columns d ! i)"
      "exceeds (missing_percent d (snd (columns d ! j))) t" by blast
    then have "columns d ! j \<in> set (filter (\<lambda>(l, s). exceeds (missing_percent d s) t) (columns d))"
      by (simp add: case_prod_beta)
    then have "fst (columns d ! j) \<in> set (cols_to_drop t d)"
      unfolding cols_to_drop_def by (simp only: set_map) (rule imageI)
    with j show "fst (columns d ! i) \<in> set (cols_to_drop t d)" by simp
  qed
  then show ?thesis using i by (auto simp: dropped_def case_prod_beta)
qed

lemma dropped_count:
  "length (columns (drop_sparse_columns t d)) + length (dropped t d) = length (columns d)"
proof -
  have "filter (\<lambda>(l, s). l \<notin> set (cols_to_drop t d)) (columns d) =
        filter (\<lambda>c. \<not> (case c of (l, s) \<Rightarrow> l \<in> set (cols_to_drop t d))) (columns d)"
    by (rule filter_cong) auto
  then show ?thesis
    unfolding columns_drop_sparse dropped_def
    using sum_length_filter_compl [of "\<lambda>(l, s). l \<in> set (cols_to_drop t d)" "columns d"] by simp
qed

lemma drop_stage_cases:
  "drop_stage opts d =
     (if (case missing_threshold opts of None \<Rightarrow> 1 / 2 | Some t \<Rightarrow> t) < 1
      then drop_sparse_columns (case missing_threshold opts of None \<Rightarrow> 1 / 2 | Some t \<Rightarrow> t) d else d)"
  by (simp add: drop_stage_def Let_def)

text \<open>
  Raising the threshold never makes the stage drop more columns. The stage collects the labels
  of the columns whose missing fraction strictly exceeds the threshold and drops by label; for
  thresholds \<open>t1 \<le> t2\<close> the columns dropped with \<open>t2\<close> are among those dropped with \<open>t1\<close>,
  and so are not more. This also holds of the stage of simple\_cleaner.py, which is skipped
  for a threshold of 1 or more.
\<close>

lemma sparse_threshold_monotone:
  assumes "t1 \<le> t2"
  shows "set (dropped t2 d) \<subseteq> set (dropped t1 d) \<and>
         length (dropped t2 d) \<le> length (dropped t1 d) \<and>
         length (columns (drop_sparse_columns t2 d)) = length (columns d) - length (dropped t2 d) \<and>
         length (columns (drop_sparse_columns t1 d)) \<le> length (columns (drop_sparse_columns t2 d)) \<and>
         length (columns (drop_stage (opts\<lparr>missing_threshold := Some t1\<rparr>) d))
           \<le> length (columns (drop_stage (opts\<lparr>missing_threshold := Some t2\<rparr>) d))"
proof -
  have sub: "set (cols_to_drop t2 d) \<subseteq> set (cols_to_drop t1 d)" using assms by (rule cols_to_drop_mono)
  have a: "set (dropped t2 d) \<subseteq> set (dropped t1 d)"
    unfolding dropped_def using sub by auto
  have b: "length (dropped t2 d) \<le> length (dropped t1 d)"
    unfolding dropped_def using sub by (intro filter_length_mono) auto
  have c: "length (columns (drop_sparse_columns t2 d)) = length (columns d) - length (dropped t2 d)"
    using dropped_count [of t2 d] by simp
  have e: "length (columns (drop_sparse_columns t1 d)) \<le> length (columns (drop_sparse_columns t2 d))"
    using dropped_count [of t1 d] dropped_count [of t2 d] b by simp
  have k: "length (columns (drop_sparse_columns t d)) \<le> length (columns d)" for t
    using dropped_count [of t d] by simp
  have f: "length (columns (drop_stage (opts\<lparr>missing_threshold := Some t1\<rparr>) d))
           \<le> length (columns (drop_stage (opts\<lparr>missing_threshold := Some t2\<rparr>) d))"
    using assms e k [of t1] by (simp add: drop_stage_cases)
  from a b c e f show ?thesis by blast
qed

text \<open>
  In a table whose labels are all different a column is dropped exactly when its own missing
  fraction, the float64 quotient, strictly exceeds the threshold.
\<close>

lemma dropped_distinct:
  assumes "distinct (map fst (columns d))" and i: "i < length (columns d)"
  shows "columns d ! i \<in> set (dropped t d) \<longleftrightarrow> exceeds (missing_percent d (snd (columns d ! i))) t"
proof -
  have "j = i" if "j < length (columns d)" "fst (columns d ! j) = fst (columns d ! i)" for j
    using that assms nth_eq_iff_index_eq [of "map fst (columns d)" j i] by simp
  then show ?thesis unfolding dropped_positions [OF i] using i by auto
qed

lemma truediv_eval:
  "truediv 0 n = 0"
  "truediv (Suc (Suc 0)) 2 = 1"
  "truediv (Suc (Suc (Suc 0))) 5 = 5404319552844595 / 9007199254740992"
  "truediv (Suc 0) 3 = 6004799503160661 / 18014398509481984"
  by (simp_all add: truediv_def shift_up.simps shift_down.simps Let_def)

lemma sparse_frame_dropped:
  "dropped (1 / 2) sparse_frame = [(Some (str ''x''), NumCol [None, Some 1, None, Some 2, None])]"
  "dropped (3 / 4) sparse_frame = []"
  by (simp_all add: dropped_def cols_to_drop_def sparse_frame_def missing_percent_def exceeds_def
      truediv_eval str_def)

text \<open>
  The comparison is one of floats. With one cell in three missing and the threshold
  \<open>0.3333333333333333\<close>, the quotient \<open>1 / 3\<close> rounds to the very float of the threshold, which
  is below one third; the column is kept.
\<close>

lemma third_missing_kept:
  "missing_percent thirds_frame (snd (columns thirds_frame ! 0)) = Some one_third \<and>
   one_third < 1 / 3 \<and>
   dropped one_third thirds_frame = [] \<and>
   drop_sparse_columns one_third thirds_frame = thirds_frame"
  by (simp add: thirds_frame_def one_third_def missing_percent_def exceeds_def dropped_def
      cols_to_drop_def drop_sparse_columns_def truediv_eval)

text \<open>
  Claim C8 against the code. The stage drops by label, and after the normalization of the
  names two columns can carry the same label. On the table read from
  \<^verbatim>\<open>A,a\n,1\n,2\n\<close> both columns get the label \<open>a\<close>; the first has missing fraction 1, the
  second 0. With the threshold 0.5 the second column is dropped with the first, although its
  missing fraction does not exceed the threshold.
\<close>

theorem drop_sparse_columns_namesake:
  "map (\<lambda>(l, s). (Some (clean_column_name python_db l), s)) (columns frame_Aa) = columns frame_aa \<and>
   missing_percent frame_aa (snd (columns frame_aa ! 1)) = Some 0 \<and>
   \<not> exceeds (missing_percent frame_aa (snd (columns frame_aa ! 1))) (1 / 2) \<and>
   columns (drop_sparse_columns (1 / 2) frame_aa) = [] \<and>
   columns (drop_stage default_options frame_aa) = [] \<and>
   columns frame_aa ! 1 \<in> set (dropped (1 / 2) frame_aa)"
  by (simp add: frame_Aa_def frame_aa_def clean_column_name_def python_db_def py_strip_def
      isspace_def remove_special_def is_word_def ascii_alnum_def lower_char_def
      drop_stage_def default_options_def
      drop_sparse_columns_def drop_columns_def cols_to_drop_def dropped_def
      missing_percent_def exceeds_def str_def Let_def truediv_eval)

subsection \<open>Filling missing values\<close>

lemma fillna_nth: "i < length xs \<Longrightarrow> fillna v xs ! i = (case xs ! i of None \<Rightarrow> v | Some x \<Rightarrow> Some x)"
  by (simp add: fillna_def)

lemma fill_stage_columns:
  assumes "distinct (map fst (columns d))"
  shows "\<exists>d'. fill_stage step d = Inr d' \<and> index_len d' = index_len d \<and>
              map fst (columns d') = map fst (columns d) \<and>
              map snd (columns d') = map step (map snd (columns d))"
  using assms by (simp add: fill_stage_def case_prod_beta comp_def)

text \<open>
  Claim C2, as the code has it, for a numeric column \<open>xs\<close> and a text column \<open>ys\<close> with
  a missing cell each. The engine the application runs (simple\_cleaner.py, \<open>fill_column\<close>)
  does not read \<open>handle_missing\<close>: it fills a numeric column with its median and a text
  column with \<open>Unknown\<close>. The engine of data\_cleaner.py (\<open>fill_column_method\<close>) fills
  a numeric column with its mean for \<open>mean\<close> and with its median for \<open>median\<close>,
  \<open>auto\<close> and any other value but \<open>mode\<close>; for \<open>mode\<close> it fills every column, numeric
  or text, with the first mode of the column, and with \<open>Unknown\<close> only when the column has no
  mode; for any other value it fills a text column with \<open>Unknown\<close>. A cell that is present
  is never changed, and on a frame with distinct labels the stage works column by column.
\<close>

theorem fill_strategies:
  assumes "None \<in> set xs" and "None \<in> set ys" and "distinct (map fst (columns d))"
  shows "fill_column (NumCol xs) = NumCol (fillna (median (present xs)) xs) \<and>
         fill_column (ObjCol ys) = ObjCol (fillna (Some (str ''Unknown'')) ys) \<and>
         fill_column_method ''mean'' (NumCol xs) = NumCol (fillna (mean (present xs)) xs) \<and>
         (method \<noteq> ''mean'' \<and> method \<noteq> ''mode'' \<longrightarrow>
            fill_column_method method (NumCol xs) = NumCol (fillna (median (present xs)) xs)) \<and>
         fill_column_method ''mode'' (NumCol xs) =
           (case mode (present xs) of
              Some m \<Rightarrow> NumCol (fillna (Some m) xs)
            | None \<Rightarrow> ObjCol (map (\<lambda>c. Some (str ''Unknown'')) xs)) \<and>
         (method \<noteq> ''mode'' \<longrightarrow>
            fill_column_method method (ObjCol ys) = ObjCol (fillna (Some (str ''Unknown'')) ys)) \<and>
         fill_column_method ''mode'' (ObjCol ys) =
           (case mode (present ys) of
              Some m \<Rightarrow> ObjCol (fillna (Some m) ys)
            | None \<Rightarrow> ObjCol (fillna (Some (str ''Unknown'')) ys)) \<and>
         (\<forall>i<length xs. fillna v xs ! i = (case xs ! i of None \<Rightarrow> v | Some x \<Rightarrow> Some x)) \<and>
         (\<exists>d'. fill_stage step d = Inr d' \<and> index_len d' = index_len d \<and>
              map fst (columns d') = map fst (columns d) \<and>
              map snd (columns d') = map step (map snd (columns d)))"
  using assms fill_stage_columns [of d step] by (auto simp: fillna_nth)

lemma num_present: "present num_example = [1, 2, 6]"
  by (simp add: present_def num_example_def)

lemma num_median: "median [1, 2, 6] = Some 2"
  by (simp add: median_def Let_def numeral_3_eq_3)

lemma num_mean: "mean [1, 2, 6] = Some 3"
  by (simp add: mean_def)

lemma num_mode: "mode [1, 2, 6 :: rat] = Some 1"
  by (simp add: mode_def Let_def)

lemma obj_present: "present obj_example = [str ''a'', str ''a'', str ''b'']"
  by (simp add: present_def obj_example_def)

lemma obj_mode: "mode [str ''a'', str ''a'', str ''b''] = Some (str ''a'')"
  by (simp add: mode_def Let_def str_def)

theorem fill_strategies_witness:
  "None \<in> set num_example \<and> None \<in> set obj_example \<and>
   distinct (map fst (columns sparse_frame)) \<and>
   fill_column (NumCol num_example) = NumCol [Some 1, Some 2, Some 6, Some 2] \<and>
   fill_column_method ''mean'' (NumCol num_example) = NumCol [Some 1, Some 2, Some 6, Some 3] \<and>
   fill_column_method ''auto'' (NumCol num_example) = NumCol [Some 1, Some 2, Some 6, Some 2] \<and>
   fill_column_method ''mode'' (NumCol num_example) = NumCol [Some 1, Some 2, Some 6, Some 1] \<and>
   fill_column_method ''auto'' (ObjCol obj_example) =
     ObjCol [Some (str ''a''), Some (str ''Unknown''), Some (str ''a''), Some (str ''b'')] \<and>
   (\<exists>d'. fill_stage fill_column sparse_frame = Inr d' \<and>
         map snd (columns d') = [NumCol [Some (3 / 2), Some 1, Some (3 / 2), Some 2, Some (3 / 2)],
                                 NumCol [Some 1, Some 2, Some 3, Some 4, Some 5]])"
proof -
  have a: "None \<in> set num_example" by (simp add: num_example_def)
  have b: "None \<in> set obj_example" by (simp add: obj_example_def)
  have c: "distinct (map fst (columns sparse_frame))" by (simp add: sparse_frame_def str_def)
  have m: "median [1, 2] = Some (3 / 2 :: rat)" by (simp add: median_def Let_def)
  have s: "map (fill_column \<circ> snd) (columns sparse_frame) =
             [NumCol [Some (3 / 2), Some 1, Some (3 / 2), Some 2, Some (3 / 2)],
              NumCol [Some 1, Some 2, Some 3, Some 4, Some 5]]"
    by (simp add: sparse_frame_def present_def m fillna_def)
  have f: "fillna v num_example = [Some 1, Some 2, Some 6, v]" for v
    by (simp add: fillna_def num_example_def)
  have g: "fillna v obj_example = [Some (str ''a''), v, Some (str ''a''), Some (str ''b'')]" for v
    by (simp add: fillna_def obj_example_def)
  have st: "\<exists>d'. fill_stage fill_column sparse_frame = Inr d' \<and>
         map snd (columns d') = [NumCol [Some (3 / 2), Some 1, Some (3 / 2), Some 2, Some (3 / 2)],
                                 NumCol [Some 1, Some 2, Some 3, Some 4, Some 5]]"
    using c by (simp add: fill_stage_def) (simp add: sparse_frame_def present_def m fillna_def)
  from fill_strategies [OF a b c, of "''auto''" None fill_column] a b c
  show ?thesis by (simp add: num_present num_median num_mean num_mode f g st)
qed

text \<open>
  The claim as written fails on both engines. With \<open>handle_missing = 'mode'\<close>,
  data\_cleaner.py fills the text column \<open>a, ?, a, b\<close> with its mode \<open>a\<close>, not with
  \<open>Unknown\<close>. And simple\_cleaner.py fills the numeric column \<open>1, 2, 6, ?\<close> with the
  median 2 whatever \<open>handle_missing\<close> is, so also when it is \<open>mean\<close> (the mean is 3).
\<close>

theorem fill_strategies_counterexample:
  "fill_column_method ''mode'' (ObjCol obj_example) =
     ObjCol [Some (str ''a''), Some (str ''a''), Some (str ''a''), Some (str ''b'')] \<and>
   fill_column_method ''mode'' (ObjCol obj_example) \<noteq>
     ObjCol [Some (str ''a''), Some (str ''Unknown''), Some (str ''a''), Some (str ''b'')] \<and>
   fill_column (NumCol num_example) = NumCol [Some 1, Some 2, Some 6, Some 2] \<and>
   mean (present num_example) = Some 3 \<and>
   fill_column (NumCol num_example) \<noteq> NumCol (fillna (mean (present num_example)) num_example)"
proof -
  have a: "None \<in> set num_example" by (simp add: num_example_def)
  have b: "None \<in> set obj_example" by (simp add: obj_example_def)
  have f: "fillna v num_example = [Some 1, Some 2, Some 6, v]" for v
    by (simp add: fillna_def num_example_def)
  have g: "fillna v obj_example = [Some (str ''a''), v, Some (str ''a''), Some (str ''b'')]" for v
    by (simp add: fillna_def obj_example_def)
  show ?thesis using a b
    by (simp add: num_present num_median num_mean obj_present obj_mode f g) (simp add: str_def)
qed

subsection \<open>Normalizing a column name twice\<close>

text \<open>
  Claim C9 at the name U+0130 (capital I with dot above). Its lowercase is U+0069 U+0307, and
  lowercasing is the last step, so the combining mark U+0307 stays in the normalized name.
  Normalizing that name again removes the mark, as it is no word character: the second
  normalization returns \<open>i\<close>, which is not the first result.
\<close>

theorem clean_column_name_dotted_capital_I:
  "clean_column_name python_db (Some [304]) = [105, 775] \<and>
   clean_column_name python_db (Some (clean_column_name python_db (Some [304]))) = [105] \<and>
   clean_column_name python_db (Some (clean_column_name python_db (Some [304])))
     \<noteq> clean_column_name python_db (Some [304])"
  by (simp add: clean_column_name_def python_db_def py_strip_def isspace_def remove_special_def
      is_word_def ascii_alnum_def lower_char_def Let_def)

subsection \<open>ASCII column names\<close>

text \<open>
  The failure needs a character whose lowercase is longer than itself. On a name of ASCII
  characters \<open>_clean_column_name\<close> returns a name of digits, small letters and underscores,
  which it leaves unchanged.
\<close>

lemma plain_not_space: "plain_char c \<Longrightarrow> \<not> isspace c"
  by (auto simp: plain_char_def isspace_def)

lemma plain_word: "plain_char c \<Longrightarrow> is_word python_db c"
  by (auto simp: plain_char_def is_word_def python_db_def ascii_alnum_def)

lemma plain_lower: "plain_char c \<Longrightarrow> lower_char c = [c]"
  by (auto simp: plain_char_def lower_char_def)

lemma dropWhile_none: "\<forall>c\<in>set s. \<not> P c \<Longrightarrow> dropWhile P s = s"
  by (cases s) auto

lemma py_strip_plain: "\<forall>c\<in>set s. plain_char c \<Longrightarrow> py_strip s = s"
  by (simp add: py_strip_def dropWhile_none plain_not_space)

lemma remove_special_plain: "\<forall>c\<in>set s. plain_char c \<Longrightarrow> remove_special python_db s = s"
  by (simp add: remove_special_def plain_word)

lemma spaces_to_underscores_plain: "\<forall>c\<in>set s. plain_char c \<Longrightarrow> spaces_to_underscores s = s"
  by (induction s) (auto simp: plain_not_space)

lemma lower_plain: "\<forall>c\<in>set s. plain_char c \<Longrightarrow> lower python_db s = s"
  by (induction s) (auto simp: python_db_def plain_lower)

lemma clean_plain:
  assumes "\<forall>c\<in>set s. plain_char c"
  shows "clean_column_name python_db (Some s) = (if s = [] then str ''column'' else s)"
  using assms
  by (simp add: clean_column_name_def py_strip_plain remove_special_plain
      spaces_to_underscores_plain lower_plain)

lemma spaces_to_underscores_set:
  "c \<in> set (spaces_to_underscores s) \<Longrightarrow> c = 95 \<or> (c \<in> set s \<and> \<not> isspace c)"
  by (induction s arbitrary: c rule: spaces_to_underscores.induct)
     (auto split: if_splits dest: set_dropWhileD)

lemma lower_ascii_plain:
  assumes "\<forall>c\<in>set s. c < 128 \<and> is_word python_db c"
  shows "\<forall>c\<in>set (lower python_db s). plain_char c"
  using assms
  by (induction s)
     (auto simp: python_db_def lower_char_def plain_char_def is_word_def ascii_alnum_def)

lemma clean_ascii_plain:
  assumes "\<forall>c\<in>set name. c < 128"
  shows "\<forall>c\<in>set (clean_column_name python_db (Some name)). plain_char c"
proof -
  let ?c3 = "spaces_to_underscores (remove_special python_db (py_strip name))"
  have sub: "set (py_strip name) \<subseteq> set name"
    by (auto simp: py_strip_def dest!: set_dropWhileD)
  have "\<forall>c\<in>set ?c3. c < 128 \<and> is_word python_db c"
  proof
    fix c assume "c \<in> set ?c3"
    then consider "c = 95" | "c \<in> set (remove_special python_db (py_strip name))" "\<not> isspace c"
      by (auto dest: spaces_to_underscores_set)
    then show "c < 128 \<and> is_word python_db c"
    proof cases
      case 1 then show ?thesis by (simp add: is_word_def)
    next
      case 2 then show ?thesis using sub assms by (auto simp: remove_special_def)
    qed
  qed
  then have "\<forall>c\<in>set (lower python_db ?c3). plain_char c" by (rule lower_ascii_plain)
  moreover have "\<forall>c\<in>set (str ''column''). plain_char c" by (simp add: str_def plain_char_def)
  ultimately show ?thesis by (simp add: clean_column_name_def Let_def)
qed

lemma clean_nonempty: "clean_column_name u col \<noteq> []"
  by (simp add: clean_column_name_def Let_def str_def split: option.splits)

lemma clean_column_name_ascii_idempotent:
  assumes "\<forall>c\<in>set name. c < 128"
  shows "clean_column_name python_db (Some (clean_column_name python_db (Some name))) =
         clean_column_name python_db (Some name)"
  using clean_plain [OF clean_ascii_plain [OF assms]] clean_nonempty by simp

subsection \<open>The temporary file of smart\_read\_csv\<close>

text \<open>
  Claim C7 against the code. When pandas can read neither the file nor its repaired copy,
  \<open>smart_read_csv\<close> falls back to manual parsing and returns with the temporary file still on
  disk: the \<open>os.unlink\<close> stands only on the path on which the second read succeeds.
\<close>

theorem smart_read_csv_leaves_temp_file:
  assumes "files filepath = Some content" and "temp_path \<noteq> filepath"
    and "pd_read content = Inl e" and "pd_read (fix content) = Inl e'"
  shows "smart_read_csv pd_read fix manual temp_path filepath files =
           (manual, files(temp_path \<mapsto> fix content)) \<and>
         temp_path \<in> dom (snd (smart_read_csv pd_read fix manual temp_path filepath files))"
  using assms
  by (simp add: smart_read_csv_def read_csv_path_def fix_csv_issues_def)

theorem smart_read_csv_leaves_temp_file_witness:
  "[''upload.csv'' \<mapsto> []] ''upload.csv'' = Some [] \<and>
   pd_read_nothing [] = Inl EmptyDataError \<and>
   smart_read_csv pd_read_nothing id (Inr DataFrame_empty) ''/tmp/tmpk3x.csv'' ''upload.csv''
       [''upload.csv'' \<mapsto> []] =
     (Inr DataFrame_empty, [''upload.csv'' \<mapsto> [], ''/tmp/tmpk3x.csv'' \<mapsto> []]) \<and>
   ''/tmp/tmpk3x.csv'' \<in> dom (snd (smart_read_csv pd_read_nothing id (Inr DataFrame_empty)
       ''/tmp/tmpk3x.csv'' ''upload.csv'' [''upload.csv'' \<mapsto> []]))"
proof -
  have a: "[''upload.csv'' \<mapsto> ([]::pystr)] ''upload.csv'' = Some []" by simp
  have b: "''/tmp/tmpk3x.csv'' \<noteq> ''upload.csv''" by simp
  have c: "pd_read_nothing [] = Inl EmptyDataError" by (simp add: pd_read_nothing_def)
  have d: "pd_read_nothing (id []) = Inl EmptyDataError" by (simp add: pd_read_nothing_def)
  from smart_read_csv_leaves_temp_file
    [of "[''upload.csv'' \<mapsto> []]" "''upload.csv''" "[]" "''/tmp/tmpk3x.csv''"
        pd_read_nothing EmptyDataError id EmptyDataError "Inr DataFrame_empty", OF a b c d] a c
  show ?thesis by simp
qed

subsection \<open>The temporary file of index\<close>

text \<open>
  The upload handler has the same gap. When the resolver returned an empty frame and the
  cleaner cannot load the repaired copy either, \<open>index\<close> returns early with the temporary
  file on disk; it removes the file only on the path that renders the result page.
\<close>

lemma load_data_empty:
  "(case loaded of None \<Rightarrow> True | Some d \<Rightarrow> df_empty d) \<Longrightarrow> df_empty (df (load_data loaded opts))"
  by (auto simp: load_data_def df_empty_def DataFrame_empty_def split: option.splits)

lemma index_leaves_temp_file:
  assumes "read_csv_with_fallbacks con env = Inr df_raw" and "df_empty df_raw"
    and "read_ignore env = Inr content"
    and "case loaded temp_path of None \<Rightarrow> True | Some d \<Rightarrow> df_empty d"
  shows "index u now con env loaded opts debug_text saved temp_path original_path files =
           (Redirected, files(temp_path \<mapsto> clean_csv_content content))"
  using assms load_data_empty [of "loaded temp_path" opts]
  by (simp add: index_def)

lemma index_rendered:
  assumes "fst (index u now con env loaded opts debug_text saved temp_path original_path files) = Rendered"
  shows "temp_path \<notin> dom files \<Longrightarrow>
         temp_path \<notin> dom (snd (index u now con env loaded opts debug_text saved temp_path original_path files))"
  using assms
  by (auto simp: index_def Let_def split: sum.splits if_splits prod.splits)

lemma index_empty_file:
  "index python_db now utf8_console empty_file_env (\<lambda>path. Some DataFrame_empty) default_options []
     (Inr ())
     ''/tmp/tmpq7.csv'' ''uploads/empty.csv'' Map.empty =
   (Redirected, [''/tmp/tmpq7.csv'' \<mapsto> []])"
proof -
  have a: "read_ignore empty_file_env = Inr []" by (simp add: empty_file_env_def)
  have b: "clean_csv_content [] = []"
    by (simp add: clean_csv_content_def replacements_def py_replace.simps py_split.simps py_strip_def)
  from index_leaves_temp_file [OF empty_file_resolved _ a, of "\<lambda>path. Some DataFrame_empty"] b
  show ?thesis by (simp add: df_empty_def DataFrame_empty_def)
qed

end
